theory Spec2Isabelle
  imports Main "HOL-Library.Word" "HOL-Library.Signed_Division"
begin

unbundle bit_operations_syntax

section \<open>Machine types of \<open>mpi_manager.h\<close>\<close>

text \<open>
  The header works with the C++ types \<open>int\<close> (32 bits, two's complement, read here
  with \<open>sint\<close>), \<open>ui64\<close> (64 bits, unsigned, read with \<open>unat\<close>), \<open>char*\<close> (an
  address, 64 bits, pointer arithmetic is word addition) and \<open>TAtomic\<close> (a 64-bit
  counter). Conversions are \<open>ucast\<close> (truncation or zero extension) and \<open>scast\<close>
  (sign extension).
\<close>

type_synonym byte = "8 word"
type_synonym i32 = "32 word"
type_synonym ui64 = "64 word"
type_synonym ptr = "64 word"

type_synonym MPI_Request = nat
type_synonym MPI_Status = "nat option"
  \<comment> \<open>\<open>None\<close>: the status record has not been written yet\<close>

section \<open>Fatal checks\<close>

datatype error =
    AssertFailed
  | EnsureFailed
  | VerifyFailed
  | MpiAbort i32

text \<open>
  Modelled from the spec: the macros \<open>Y_ASSERT\<close>, \<open>Y_VERIFY\<close> (util/system/yassert.h)
  and \<open>CB_ENSURE\<close> (catboost/libs/helpers/exception.h) are not among the sources.
  Section 7 of the specification makes every failed check of this kind an immediate,
  loud failure of the call (a usage error); the three are kept apart by the error they
  produce. Each takes its continuation, so that a body reads in the order of the source.
\<close>

definition Y_ASSERT :: "bool \<Rightarrow> error + 'a \<Rightarrow> error + 'a" where
  "Y_ASSERT c k = (if c then k else Inl AssertFailed)"

definition CB_ENSURE :: "bool \<Rightarrow> error + 'a \<Rightarrow> error + 'a" where
  "CB_ENSURE c k = (if c then k else Inl EnsureFailed)"

definition Y_VERIFY :: "bool \<Rightarrow> error + 'a \<Rightarrow> error + 'a" where
  "Y_VERIFY c k = (if c then k else Inl VerifyFailed)"

section \<open>The transport library, seen from the caller\<close>

text \<open>
  The MPI library is an external collaborator. Every call the header makes is recorded,
  with its arguments, in the order of issue; what the library answers (its return code
  and its output parameters) is given by the environment: the answer to the \<open>n\<close>-th
  call of a process is \<open>replies w n\<close>. Nothing is assumed about the answers, so a
  statement about all worlds holds whatever the library does.
\<close>

datatype mpi_call =
    MPI_Test MPI_Request
  | MPI_Wait MPI_Request
  | MPI_Cancel MPI_Request
  | MPI_Get_count MPI_Status
  | MPI_Irecv ptr i32 i32 i32
  | MPI_Recv ptr i32 i32 i32
  | MPI_Isend ptr i32 i32 i32
  | MPI_Send ptr i32 i32 i32
  | MPI_Bsend ptr i32 i32 i32
  | MPI_Probe i32 i32
  | MPI_Iprobe i32 i32

record mpi_reply =
  errno :: i32
  out_flag :: bool
  out_request :: MPI_Request
  out_status :: MPI_Status
  out_count :: i32

record mpi_world =
  calls :: "mpi_call list"
  replies :: "nat \<Rightarrow> mpi_reply"

definition MPI_SUCCESS :: i32 where
  "MPI_SUCCESS = 0"

definition mpi :: "mpi_call \<Rightarrow> mpi_world \<Rightarrow> mpi_reply \<times> mpi_world" where
  "mpi cmd w = (replies w (length (calls w)), w\<lparr>calls := calls w @ [cmd]\<rparr>)"

text \<open>\<open>MPI_SAFE_CALL\<close>: any return code but success aborts the process group.\<close>

definition MPI_SAFE_CALL :: "mpi_call \<Rightarrow> mpi_world \<Rightarrow> error + (mpi_reply \<times> mpi_world)" where
  "MPI_SAFE_CALL cmd w =
     (case mpi cmd w of
        (rep, w') \<Rightarrow> if MPI_SUCCESS \<noteq> errno rep then Inl (MpiAbort (errno rep)) else Inr (rep, w'))"

section \<open>\<open>TMpiRequest\<close>\<close>

text \<open>
  \<open>Flag\<close> is an \<open>int\<close>: \<open>-1\<close> is the empty state, \<open>0\<close> is pending, anything else is
  complete. The three fields are \<open>mutable\<close>, so the \<open>const\<close> methods return the
  request they leave behind.
\<close>

record TMpiRequest =
  Flag :: i32
  Request :: MPI_Request
  Status :: MPI_Status

text \<open>
  The default constructor runs the member initialiser \<open>Flag = -1\<close> and leaves the
  token and the status as they are in memory (parameters here).
\<close>

definition TMpiRequest_default :: "MPI_Request \<Rightarrow> MPI_Status \<Rightarrow> TMpiRequest" where
  "TMpiRequest_default junk_request junk_status =
     \<lparr>Flag = - 1, Request = junk_request, Status = junk_status\<rparr>"

text \<open>The private constructor \<open>TMpiRequest(MPI_Request request)\<close>.\<close>

definition TMpiRequest_of :: "MPI_Request \<Rightarrow> TMpiRequest" where
  "TMpiRequest_of request = \<lparr>Flag = 0, Request = request, Status = None\<rparr>"

definition IsComplete :: "TMpiRequest \<Rightarrow> mpi_world \<Rightarrow> error + (bool \<times> TMpiRequest \<times> mpi_world)" where
  "IsComplete r w =
     Y_ASSERT (Flag r \<noteq> - 1)
      (CB_ENSURE (Flag r \<noteq> - 1)
        (if Flag r = 0 then
           (case MPI_SAFE_CALL (MPI_Test (Request r)) w of
              Inl e \<Rightarrow> Inl e
            | Inr (rep, w') \<Rightarrow>
                (let r' = r\<lparr>Request := out_request rep,
                            Flag := (if out_flag rep then 1 else 0),
                            Status := out_status rep\<rparr>
                 in Inr (Flag r' \<noteq> 0, r', w')))
         else Inr (Flag r \<noteq> 0, r, w)))"

definition WaitComplete :: "TMpiRequest \<Rightarrow> mpi_world \<Rightarrow> error + (TMpiRequest \<times> mpi_world)" where
  "WaitComplete r w =
     CB_ENSURE (Flag r \<noteq> - 1)
       (if Flag r = 0 then
          (case MPI_SAFE_CALL (MPI_Wait (Request r)) w of
             Inl e \<Rightarrow> Inl e
           | Inr (rep, w') \<Rightarrow>
               Inr (r\<lparr>Request := out_request rep, Status := out_status rep, Flag := 1\<rparr>, w'))
        else Inr (r, w))"

definition ReceivedBytes :: "TMpiRequest \<Rightarrow> mpi_world \<Rightarrow> error + (ui64 \<times> mpi_world)" where
  "ReceivedBytes r w =
     CB_ENSURE (Flag r \<noteq> - 1)
       (case MPI_SAFE_CALL (MPI_Get_count (Status r)) w of
          Inl e \<Rightarrow> Inl e
        | Inr (rep, w') \<Rightarrow> Inr (scast (out_count rep), w'))"

definition Abort :: "TMpiRequest \<Rightarrow> mpi_world \<Rightarrow> error + (TMpiRequest \<times> mpi_world)" where
  "Abort r w =
     CB_ENSURE (Flag r \<noteq> - 1)
       (if Flag r = 0 then
          (case MPI_SAFE_CALL (MPI_Cancel (Request r)) w of
             Inl e \<Rightarrow> Inl e
           | Inr (rep, w') \<Rightarrow> Inr (r\<lparr>Request := out_request rep, Flag := - 1\<rparr>, w'))
        else Inr (r, w))"

definition IsCreated :: "TMpiRequest \<Rightarrow> bool" where
  "IsCreated r = (Flag r \<noteq> - 1)"

text \<open>The destructor \<open>~TMpiRequest\<close>.\<close>

definition TMpiRequest_destroy :: "TMpiRequest \<Rightarrow> error + unit" where
  "TMpiRequest_destroy r =
     (if Flag r \<noteq> - 1 then Y_VERIFY (Flag r \<noteq> 0) (Inr ()) else Inr ())"

definition Clear :: "TMpiRequest \<Rightarrow> TMpiRequest" where
  "Clear r = r\<lparr>Flag := - 1\<rparr>"

text \<open>The three states of a request, read off \<open>Flag\<close>.\<close>

definition is_empty :: "TMpiRequest \<Rightarrow> bool" where
  "is_empty r = (Flag r = - 1)"

definition is_pending :: "TMpiRequest \<Rightarrow> bool" where
  "is_pending r = (Flag r = 0)"

definition is_complete :: "TMpiRequest \<Rightarrow> bool" where
  "is_complete r = (Flag r \<noteq> - 1 \<and> Flag r \<noteq> 0)"

text \<open>
  Move construction and move assignment take two objects that may be the same one, so
  they are modelled on a store of requests indexed by address. Each assignment of the
  source is one update of the store, in the order of the source.
\<close>

type_synonym request_store = "nat \<Rightarrow> TMpiRequest"

definition move_assign :: "nat \<Rightarrow> nat \<Rightarrow> request_store \<Rightarrow> request_store" where
  "move_assign this other h =
     (if this \<noteq> other then
        (let h1 = h(this := (h this)\<lparr>Flag := Flag (h other)\<rparr>);
             h2 = h1(this := (h1 this)\<lparr>Request := Request (h1 other)\<rparr>);
             h3 = h2(this := (h2 this)\<lparr>Status := Status (h2 other)\<rparr>)
         in h3(other := Clear (h3 other)))
      else h)"

text \<open>
  The move constructor builds a new object at \<open>this\<close>: the member initialiser sets
  \<open>Flag = -1\<close> first, then the body runs.
\<close>

definition move_construct :: "nat \<Rightarrow> nat \<Rightarrow> request_store \<Rightarrow> request_store" where
  "move_construct this other h =
     (let h0 = h(this := (h this)\<lparr>Flag := - 1\<rparr>) in
      if this \<noteq> other then
        (let h1 = h0(this := (h0 this)\<lparr>Flag := Flag (h0 other)\<rparr>);
             h2 = h1(this := (h1 this)\<lparr>Request := Request (h1 other)\<rparr>);
             h3 = h2(this := (h2 this)\<lparr>Status := Status (h2 other)\<rparr>)
         in h3(other := Clear (h3 other)))
      else h0)"

text \<open>
  The operations a caller can apply to a request it holds, and runs of them.
  \<open>Op_MovedFrom\<close> is what a move construction or a move assignment does to the
  object it moves from.
\<close>

datatype request_op =
    Op_IsComplete | Op_WaitComplete | Op_ReceivedBytes | Op_Abort | Op_IsCreated
  | Op_MovedFrom

fun apply_request_op :: "request_op \<Rightarrow> TMpiRequest \<times> mpi_world \<Rightarrow> error + (TMpiRequest \<times> mpi_world)" where
  "apply_request_op Op_IsComplete (r, w) =
     (case IsComplete r w of Inl e \<Rightarrow> Inl e | Inr (b, r', w') \<Rightarrow> Inr (r', w'))"
| "apply_request_op Op_WaitComplete (r, w) = WaitComplete r w"
| "apply_request_op Op_ReceivedBytes (r, w) =
     (case ReceivedBytes r w of Inl e \<Rightarrow> Inl e | Inr (n, w') \<Rightarrow> Inr (r, w'))"
| "apply_request_op Op_Abort (r, w) = Abort r w"
| "apply_request_op Op_IsCreated (r, w) = Inr (r, w)"
| "apply_request_op Op_MovedFrom (r, w) = Inr (Clear r, w)"

fun apply_request_ops :: "request_op list \<Rightarrow> TMpiRequest \<times> mpi_world \<Rightarrow> error + (TMpiRequest \<times> mpi_world)" where
  "apply_request_ops [] st = Inr st"
| "apply_request_ops (x # xs) st =
     (case apply_request_op x st of Inl e \<Rightarrow> Inl e | Inr st' \<Rightarrow> apply_request_ops xs st')"

section \<open>\<open>TMpiManager\<close>\<close>

record TDeviceId =
  dev_HostId :: i32
  DeviceId :: i32

text \<open>\<open>TBuffer\<close> and \<open>TSerializedTask\<close>, as far as the header uses them: an address and a size.\<close>

record TBuffer =
  Data :: ptr
  Size :: ui64

record TMpiManager =
  HostCount :: i32
  HostId :: i32
  Counter :: "64 word"
  UseBSendForTasks :: bool

definition BufferSize :: ui64 where
  "BufferSize = 32 * 1024 * 1024"

definition IsMaster :: "TMpiManager \<Rightarrow> bool" where
  "IsMaster m = (HostId m = 0)"

subsection \<open>Single messages\<close>

definition ReadAsync :: "ptr \<Rightarrow> i32 \<Rightarrow> i32 \<Rightarrow> i32 \<Rightarrow> mpi_world \<Rightarrow> error + (TMpiRequest \<times> mpi_world)" where
  "ReadAsync data dataSize sourceRank tag w =
     (case MPI_SAFE_CALL (MPI_Irecv data dataSize sourceRank tag) w of
        Inl e \<Rightarrow> Inl e
      | Inr (rep, w') \<Rightarrow> Inr (TMpiRequest_of (out_request rep), w'))"

definition Read :: "ptr \<Rightarrow> i32 \<Rightarrow> i32 \<Rightarrow> i32 \<Rightarrow> mpi_world \<Rightarrow> error + mpi_world" where
  "Read data dataSize sourceRank tag w =
     (case MPI_SAFE_CALL (MPI_Recv data dataSize sourceRank tag) w of
        Inl e \<Rightarrow> Inl e
      | Inr (rep, w') \<Rightarrow> Inr w')"

definition WriteAsync :: "ptr \<Rightarrow> i32 \<Rightarrow> i32 \<Rightarrow> i32 \<Rightarrow> mpi_world \<Rightarrow> error + (TMpiRequest \<times> mpi_world)" where
  "WriteAsync data dataSize destRank tag w =
     (case MPI_SAFE_CALL (MPI_Isend data dataSize destRank tag) w of
        Inl e \<Rightarrow> Inl e
      | Inr (rep, w') \<Rightarrow> Inr (TMpiRequest_of (out_request rep), w'))"

definition Write :: "ptr \<Rightarrow> i32 \<Rightarrow> i32 \<Rightarrow> i32 \<Rightarrow> mpi_world \<Rightarrow> error + mpi_world" where
  "Write data dataSize destRank tag w =
     (case MPI_SAFE_CALL (MPI_Send data dataSize destRank tag) w of
        Inl e \<Rightarrow> Inl e
      | Inr (rep, w') \<Rightarrow> Inr w')"

subsection \<open>Chunked transfers\<close>

text \<open>
  The loops of the overloads with an explicit \<open>blockSize\<close>. \<open>offset\<close>, \<open>dataSize\<close>
  and \<open>blockSize\<close> are \<open>ui64\<close>: \<open>offset += blockSize\<close> wraps, and with
  \<open>blockSize = 0\<close> the loop never ends, which is the value \<open>None\<close>. The size of a
  block is cast to \<open>int\<close> (\<open>ucast\<close> keeps the low 32 bits). \<open>requests\<close> is the
  vector the caller passes; \<open>push_back\<close> appends.
\<close>

partial_function (option) ReadAsync_loop ::
  "ptr \<Rightarrow> ui64 \<Rightarrow> ui64 \<Rightarrow> i32 \<Rightarrow> i32 \<Rightarrow> ui64 \<Rightarrow> TMpiRequest list \<Rightarrow> mpi_world
     \<Rightarrow> (error + (TMpiRequest list \<times> mpi_world)) option" where
  "ReadAsync_loop data dataSize blockSize sourceRank tag offset requests w =
     (if offset < dataSize then
        (case ReadAsync (data + offset) (ucast (min blockSize (dataSize - offset))) sourceRank tag w of
           Inl e \<Rightarrow> Some (Inl e)
         | Inr (req, w') \<Rightarrow>
             ReadAsync_loop data dataSize blockSize sourceRank tag (offset + blockSize) (requests @ [req]) w')
      else Some (Inr (requests, w)))"

definition ReadAsync_blocks ::
  "ptr \<Rightarrow> ui64 \<Rightarrow> ui64 \<Rightarrow> i32 \<Rightarrow> i32 \<Rightarrow> TMpiRequest list \<Rightarrow> mpi_world
     \<Rightarrow> (error + (TMpiRequest list \<times> mpi_world)) option" where
  "ReadAsync_blocks data dataSize blockSize sourceRank tag requests w =
     ReadAsync_loop data dataSize blockSize sourceRank tag 0 requests w"

partial_function (option) WriteAsync_loop ::
  "ptr \<Rightarrow> ui64 \<Rightarrow> ui64 \<Rightarrow> i32 \<Rightarrow> i32 \<Rightarrow> ui64 \<Rightarrow> TMpiRequest list \<Rightarrow> mpi_world
     \<Rightarrow> (error + (TMpiRequest list \<times> mpi_world)) option" where
  "WriteAsync_loop data dataSize blockSize destRank tag offset requests w =
     (if offset < dataSize then
        (case WriteAsync (data + offset) (ucast (min blockSize (dataSize - offset))) destRank tag w of
           Inl e \<Rightarrow> Some (Inl e)
         | Inr (req, w') \<Rightarrow>
             WriteAsync_loop data dataSize blockSize destRank tag (offset + blockSize) (requests @ [req]) w')
      else Some (Inr (requests, w)))"

definition WriteAsync_blocks ::
  "ptr \<Rightarrow> ui64 \<Rightarrow> ui64 \<Rightarrow> i32 \<Rightarrow> i32 \<Rightarrow> TMpiRequest list \<Rightarrow> mpi_world
     \<Rightarrow> (error + (TMpiRequest list \<times> mpi_world)) option" where
  "WriteAsync_blocks data dataSize blockSize destRank tag requests w =
     WriteAsync_loop data dataSize blockSize destRank tag 0 requests w"

text \<open>
  The overloads without a block size: \<open>(int)Min<ui64>(dataSize, 1 << 30)\<close>, where
  \<open>1 << 30\<close> is an \<open>int\<close> converted to \<open>ui64\<close>, the minimum is cast to \<open>int\<close> and
  the \<open>int\<close> initialises the \<open>ui64\<close> block size.
\<close>

definition default_blockSize :: "ui64 \<Rightarrow> ui64" where
  "default_blockSize dataSize =
     scast (ucast (min dataSize (scast (push_bit 30 (1 :: i32)))) :: i32)"

definition ReadAsync_default ::
  "ptr \<Rightarrow> ui64 \<Rightarrow> i32 \<Rightarrow> i32 \<Rightarrow> TMpiRequest list \<Rightarrow> mpi_world
     \<Rightarrow> (error + (TMpiRequest list \<times> mpi_world)) option" where
  "ReadAsync_default data dataSize sourceRank tag requests w =
     ReadAsync_blocks data dataSize (default_blockSize dataSize) sourceRank tag requests w"

definition WriteAsync_default ::
  "ptr \<Rightarrow> ui64 \<Rightarrow> i32 \<Rightarrow> i32 \<Rightarrow> TMpiRequest list \<Rightarrow> mpi_world
     \<Rightarrow> (error + (TMpiRequest list \<times> mpi_world)) option" where
  "WriteAsync_default data dataSize destRank tag requests w =
     WriteAsync_blocks data dataSize (default_blockSize dataSize) destRank tag requests w"

subsection \<open>Tags and task dispatch\<close>

definition GetTaskTag :: "TDeviceId \<Rightarrow> error + i32" where
  "GetTaskTag deviceId = Y_ASSERT (0 \<le> sint (DeviceId deviceId)) (Inr (DeviceId deviceId + 1))"

text \<open>
  \<open>SendTask\<close>: the size is cast to \<open>int\<close>, and so is \<open>BufferSize\<close> in the
  comparison. The tag is an argument of the send, so it is computed before the call.
\<close>

definition SendTask :: "TMpiManager \<Rightarrow> TBuffer \<Rightarrow> TDeviceId \<Rightarrow> mpi_world \<Rightarrow> error + mpi_world" where
  "SendTask m task deviceId w =
     Y_ASSERT (IsMaster m)
      (let size = (ucast (Size task) :: i32) in
       Y_ASSERT (sint size < sint (ucast BufferSize :: i32))
        (Y_ASSERT (size \<noteq> 0)
          (case GetTaskTag deviceId of
             Inl e \<Rightarrow> Inl e
           | Inr t \<Rightarrow>
               if UseBSendForTasks m then
                 (case MPI_SAFE_CALL (MPI_Bsend (Data task) size (dev_HostId deviceId) t) w of
                    Inl e \<Rightarrow> Inl e
                  | Inr (rep, w') \<Rightarrow> Inr w')
               else
                 (case MPI_SAFE_CALL (MPI_Send (Data task) size (dev_HostId deviceId) t) w of
                    Inl e \<Rightarrow> Inl e
                  | Inr (rep, w') \<Rightarrow> Inr w'))))"

text \<open>
  Modelled from the spec: \<open>AtomicIncrement\<close> (util/system/atomic.h) is not among the
  sources. Section 5 of the specification has the tag counter updated atomically, one
  step per allocation; the call adds one to the counter and returns the new value.
\<close>

definition AtomicIncrement :: "TMpiManager \<Rightarrow> 64 word \<times> TMpiManager" where
  "AtomicIncrement m = (Counter m + 1, m\<lparr>Counter := Counter m + 1\<rparr>)"

text \<open>The remainder of C++ on \<open>int\<close>: it truncates towards zero and has the sign of the dividend.\<close>

definition int_rem :: "i32 \<Rightarrow> i32 \<Rightarrow> i32" where
  "int_rem a b = word_of_int (sint a smod sint b)"

definition NextCommunicationTag :: "TMpiManager \<Rightarrow> error + (i32 \<times> TMpiManager)" where
  "NextCommunicationTag m =
     Y_ASSERT (IsMaster m)
      (let cycleLen = push_bit 16 (1 :: i32) - 1 in
       case AtomicIncrement m of
         (c, m') \<Rightarrow>
           (let tag0 = (ucast c :: i32);
                tag1 = (if sint tag0 < 0 then - tag0 else tag0);
                tag2 = int_rem tag1 cycleLen;
                tag3 = push_bit 10 tag2 OR 1023
            in Inr (tag3, m')))"

subsection \<open>Probing and receiving a message of unknown size\<close>

definition HasMessage :: "i32 \<Rightarrow> i32 \<Rightarrow> mpi_world \<Rightarrow> error + (bool \<times> mpi_world)" where
  "HasMessage rank tag w =
     (case MPI_SAFE_CALL (MPI_Iprobe rank tag) w of
        Inl e \<Rightarrow> Inl e
      | Inr (rep, w') \<Rightarrow> Inr (out_flag rep, w'))"

text \<open>\<open>fresh\<close> is the address the resized buffer gets from the allocator.\<close>

definition DynamicReceive :: "ptr \<Rightarrow> i32 \<Rightarrow> i32 \<Rightarrow> mpi_world \<Rightarrow> error + (TBuffer \<times> mpi_world)" where
  "DynamicReceive fresh rank tag w =
     (case MPI_SAFE_CALL (MPI_Probe rank tag) w of
        Inl e \<Rightarrow> Inl e
      | Inr (rep1, w1) \<Rightarrow>
          (case MPI_SAFE_CALL (MPI_Get_count (out_status rep1)) w1 of
             Inl e \<Rightarrow> Inl e
           | Inr (rep2, w2) \<Rightarrow>
               (let size = out_count rep2;
                    data = \<lparr>Data = fresh, Size = scast size\<rparr>
                in case MPI_SAFE_CALL (MPI_Recv (Data data) size rank tag) w2 of
                     Inl e \<Rightarrow> Inl e
                   | Inr (rep3, w3) \<Rightarrow> Inr (data, w3))))"

subsection \<open>Typed send and receive\<close>

text \<open>
  The templates are instantiated at a type \<open>T\<close>, of which the header uses
  \<open>std::is_pod<T>::value\<close> and \<open>sizeof(T)\<close> (a \<open>size_t\<close>, converted to the \<open>int\<close>
  parameter of \<open>Write\<close> and \<open>ReadAsync\<close>). A value is given by its address. The
  serialiser \<open>::Save\<close> and the deserialiser \<open>::Load\<close> are not among the sources: the
  buffer \<open>::Save\<close> fills is a parameter of \<open>Send\<close>, and \<open>Receive\<close> says where the
  bytes of its result are and leaves \<open>::Load\<close> to the reader of a \<open>Loaded\<close> buffer.
\<close>

record ctype =
  is_pod :: bool
  sizeof :: ui64

datatype received =
    Raw ptr ui64
  | Loaded TBuffer

definition ReceivePodAsync :: "ctype \<Rightarrow> i32 \<Rightarrow> i32 \<Rightarrow> ptr \<Rightarrow> mpi_world \<Rightarrow> error + (TMpiRequest \<times> mpi_world)" where
  "ReceivePodAsync T rank tag dst w =
     CB_ENSURE (is_pod T) (ReadAsync dst (ucast (sizeof T)) rank tag w)"

definition ReceiveBufferAsync :: "i32 \<Rightarrow> i32 \<Rightarrow> TBuffer \<Rightarrow> mpi_world \<Rightarrow> error + (TMpiRequest \<times> mpi_world)" where
  "ReceiveBufferAsync rank tag dst w = ReadAsync (Data dst) (ucast (Size dst)) rank tag w"

definition SendPod :: "ctype \<Rightarrow> ptr \<Rightarrow> i32 \<Rightarrow> i32 \<Rightarrow> mpi_world \<Rightarrow> error + mpi_world" where
  "SendPod T value rank tag w =
     CB_ENSURE (is_pod T) (Write value (ucast (sizeof T)) rank tag w)"

definition Send :: "ctype \<Rightarrow> ptr \<Rightarrow> TBuffer \<Rightarrow> i32 \<Rightarrow> i32 \<Rightarrow> mpi_world \<Rightarrow> error + mpi_world" where
  "Send T value saved rank tag w =
     (if is_pod T then SendPod T value rank tag w
      else Write (Data saved) (ucast (Size saved)) rank tag w)"

text \<open>
  \<open>Receive\<close>: \<open>result\<close> is the address of the local \<open>T result\<close>. The request that
  \<open>ReceivePodAsync\<close> returns is a temporary: it is destroyed after \<open>WaitComplete\<close>.
\<close>

definition Receive :: "ctype \<Rightarrow> ptr \<Rightarrow> ptr \<Rightarrow> i32 \<Rightarrow> i32 \<Rightarrow> mpi_world \<Rightarrow> error + (received \<times> mpi_world)" where
  "Receive T result fresh rank tag w =
     (if is_pod T then
        (case ReceivePodAsync T rank tag result w of
           Inl e \<Rightarrow> Inl e
         | Inr (req, w1) \<Rightarrow>
             (case WaitComplete req w1 of
                Inl e \<Rightarrow> Inl e
              | Inr (req', w2) \<Rightarrow>
                  (case TMpiRequest_destroy req' of
                     Inl e \<Rightarrow> Inl e
                   | Inr u \<Rightarrow> Inr (Raw result (sizeof T), w2))))
      else
        (case DynamicReceive fresh rank tag w of
           Inl e \<Rightarrow> Inl e
         | Inr (buffer, w') \<Rightarrow> Inr (Loaded buffer, w')))"

section \<open>What the transport does with the bytes\<close>

text \<open>
  Modelled from the spec: the transport itself is external. Section 4.2 of the
  specification requires of it that messages between a fixed (sender, receiver, tag)
  triple arrive in the order sent, so that the receives posted for the triple complete
  in the order posted, each with the oldest message not yet consumed; a receive whose
  buffer is too small for its message is a transport error, and one with no message
  never completes. A process's buffer is a list of bytes that starts at the address
  \<open>base\<close>; reading or writing outside of it has no defined result.
\<close>

record message =
  m_src :: i32
  m_dst :: i32
  m_tag :: i32
  m_payload :: "byte list"

definition read_at :: "ptr \<Rightarrow> byte list \<Rightarrow> ptr \<Rightarrow> i32 \<Rightarrow> byte list option" where
  "read_at base mem p count =
     (let i = unat (p - base) in
      if 0 \<le> sint count \<and> i + nat (sint count) \<le> length mem
      then Some (take (nat (sint count)) (drop i mem)) else None)"

definition write_at :: "ptr \<Rightarrow> byte list \<Rightarrow> ptr \<Rightarrow> byte list \<Rightarrow> byte list option" where
  "write_at base mem p bytes =
     (let i = unat (p - base) in
      if i + length bytes \<le> length mem
      then Some (take i mem @ bytes @ drop (i + length bytes) mem) else None)"

fun send_of :: "mpi_call \<Rightarrow> (ptr \<times> i32 \<times> i32 \<times> i32) option" where
  "send_of (MPI_Isend p count dest tag) = Some (p, count, dest, tag)"
| "send_of (MPI_Send p count dest tag) = Some (p, count, dest, tag)"
| "send_of (MPI_Bsend p count dest tag) = Some (p, count, dest, tag)"
| "send_of c = None"

fun recv_of :: "mpi_call \<Rightarrow> (ptr \<times> i32 \<times> i32 \<times> i32) option" where
  "recv_of (MPI_Irecv p count source tag) = Some (p, count, source, tag)"
| "recv_of (MPI_Recv p count source tag) = Some (p, count, source, tag)"
| "recv_of c = None"

text \<open>The messages that the calls of process \<open>me\<close> put on the wire, oldest first.\<close>

fun sent_messages :: "i32 \<Rightarrow> ptr \<Rightarrow> byte list \<Rightarrow> mpi_call list \<Rightarrow> message list option" where
  "sent_messages me base mem [] = Some []"
| "sent_messages me base mem (c # cs) =
     (case send_of c of
        None \<Rightarrow> sent_messages me base mem cs
      | Some (p, count, dest, tag) \<Rightarrow>
          (case read_at base mem p count of
             None \<Rightarrow> None
           | Some bytes \<Rightarrow>
               (case sent_messages me base mem cs of
                  None \<Rightarrow> None
                | Some ms \<Rightarrow> Some (\<lparr>m_src = me, m_dst = dest, m_tag = tag, m_payload = bytes\<rparr> # ms))))"

fun take_first :: "('a \<Rightarrow> bool) \<Rightarrow> 'a list \<Rightarrow> ('a \<times> 'a list) option" where
  "take_first P [] = None"
| "take_first P (x # xs) =
     (if P x then Some (x, xs)
      else (case take_first P xs of None \<Rightarrow> None | Some (y, ys) \<Rightarrow> Some (y, x # ys)))"

text \<open>
  The buffer of process \<open>me\<close> once every receive among its calls has completed, given
  the messages on the wire; \<open>None\<close> when one of them cannot complete.
\<close>

fun deliver :: "i32 \<Rightarrow> ptr \<Rightarrow> message list \<Rightarrow> mpi_call list \<Rightarrow> byte list \<Rightarrow> byte list option" where
  "deliver me base queue [] mem = Some mem"
| "deliver me base queue (c # cs) mem =
     (case recv_of c of
        None \<Rightarrow> deliver me base queue cs mem
      | Some (p, count, source, tag) \<Rightarrow>
          (case take_first (\<lambda>m. m_src m = source \<and> m_dst m = me \<and> m_tag m = tag) queue of
             None \<Rightarrow> None
           | Some (m, queue') \<Rightarrow>
               if int (length (m_payload m)) \<le> sint count then
                 (case write_at base mem p (m_payload m) of
                    None \<Rightarrow> None
                  | Some mem' \<Rightarrow> deliver me base queue' cs mem')
               else None))"

section \<open>The layout of a chunked transfer, in the words of the specification\<close>

text \<open>
  Consecutive blocks of \<open>b\<close> bytes at the offsets \<open>0\<close>, \<open>b\<close>, \<open>2 b\<close>, \<open>\<dots>\<close>, the last
  one possibly shorter: \<open>\<lceil>s / b\<rceil>\<close> pairs of an offset and a length.
\<close>

definition cap :: nat where
  "cap = 2 ^ 30"

definition spec_blocks :: "nat \<Rightarrow> nat \<Rightarrow> (nat \<times> nat) list" where
  "spec_blocks s b = map (\<lambda>k. (k * b, min b (s - k * b))) [0..<(s + b - 1) div b]"

text \<open>The environment in which no call of the transport library fails.\<close>

definition mpi_ok :: "mpi_world \<Rightarrow> bool" where
  "mpi_ok w = (\<forall>n. errno (replies w n) = MPI_SUCCESS)"

text \<open>The calls a process has issued since the world \<open>w\<close>.\<close>

definition calls_since :: "mpi_world \<Rightarrow> mpi_world \<Rightarrow> mpi_call list" where
  "calls_since w w' = drop (length (calls w)) (calls w')"

text \<open>
  The loop of the chunked overloads on unbounded naturals: the offsets it visits and
  the size it gives each block, as long as nothing wraps.
\<close>

function block_plan :: "nat \<Rightarrow> nat \<Rightarrow> nat \<Rightarrow> (nat \<times> nat) list" where
  "block_plan s b off =
     (if off < s \<and> 0 < b then (off, min b (s - off)) # block_plan s b (off + b) else [])"
  by pat_completeness auto
termination
  by (relation "measure (\<lambda>(s, b, off). s - off)") auto

declare block_plan.simps [simp del]

text \<open>The call that sends, and the call that receives, one block of a buffer at \<open>data\<close>.\<close>

definition isend_of_block :: "ptr \<Rightarrow> i32 \<Rightarrow> i32 \<Rightarrow> nat \<times> nat \<Rightarrow> mpi_call" where
  "isend_of_block data destRank tag blk =
     MPI_Isend (data + of_nat (fst blk)) (of_nat (snd blk)) destRank tag"

definition irecv_of_block :: "ptr \<Rightarrow> i32 \<Rightarrow> i32 \<Rightarrow> nat \<times> nat \<Rightarrow> mpi_call" where
  "irecv_of_block data sourceRank tag blk =
     MPI_Irecv (data + of_nat (fst blk)) (of_nat (snd blk)) sourceRank tag"

text \<open>The message that carries one block of the bytes \<open>xs\<close>.\<close>

definition block_message :: "i32 \<Rightarrow> i32 \<Rightarrow> i32 \<Rightarrow> byte list \<Rightarrow> nat \<times> nat \<Rightarrow> message" where
  "block_message source dest tag xs blk =
     \<lparr>m_src = source, m_dst = dest, m_tag = tag, m_payload = take (snd blk) (drop (fst blk) xs)\<rparr>"

text \<open>
  The requests and the world after a list of asynchronous calls that all succeed: each
  call is recorded and yields a pending request around the token the library returns.
\<close>

fun issue_all :: "mpi_call list \<Rightarrow> TMpiRequest list \<times> mpi_world \<Rightarrow> TMpiRequest list \<times> mpi_world" where
  "issue_all [] st = st"
| "issue_all (c # cs) (reqs, w) =
     issue_all cs
       (reqs @ [TMpiRequest_of (out_request (replies w (length (calls w))))],
        w\<lparr>calls := calls w @ [c]\<rparr>)"

text \<open>
  An environment for the examples: no call fails, every completion test answers yes, and
  the token and the status of the \<open>n\<close>-th call are \<open>n\<close>.
\<close>

definition example_world :: mpi_world where
  "example_world =
     \<lparr>calls = [],
      replies = (\<lambda>n. \<lparr>errno = 0, out_flag = True, out_request = n,
                        out_status = Some n, out_count = 0\<rparr>)\<rparr>"

declare ReadAsync_loop.simps [code]
declare WriteAsync_loop.simps [code]

section \<open>The life of a request\<close>

lemmas check_defs = Y_ASSERT_def CB_ENSURE_def Y_VERIFY_def
lemmas state_defs = is_empty_def is_pending_def is_complete_def

lemma op_keeps_not_pending:
  "\<not> is_pending r \<Longrightarrow> apply_request_op x (r, w) = Inr (r', w') \<Longrightarrow> \<not> is_pending r'"
  by (cases x)
     (auto simp: state_defs check_defs IsComplete_def WaitComplete_def ReceivedBytes_def
        Abort_def Clear_def split: sum.splits if_splits)

lemma ops_keep_not_pending:
  "\<not> is_pending r \<Longrightarrow> apply_request_ops xs (r, w) = Inr (r', w') \<Longrightarrow> \<not> is_pending r'"
proof (induction xs arbitrary: r w)
  case Nil
  then show ?case by simp
next
  case (Cons x xs)
  from Cons.prems(2) obtain r1 w1 where
    s1: "apply_request_op x (r, w) = Inr (r1, w1)" and
    s2: "apply_request_ops xs (r1, w1) = Inr (r', w')"
    by (auto split: sum.splits)
  from op_keeps_not_pending [OF Cons.prems(1) s1] have "\<not> is_pending r1" .
  from Cons.IH [OF this s2] show ?case .
qed

lemma complete_op_unchanged:
  "is_complete r \<Longrightarrow> x \<noteq> Op_MovedFrom \<Longrightarrow> apply_request_op x (r, w) = Inr (r', w') \<Longrightarrow> r' = r"
  by (cases x)
     (auto simp: state_defs check_defs IsComplete_def WaitComplete_def ReceivedBytes_def
        Abort_def split: sum.splits if_splits)

lemma complete_ops_unchanged:
  "is_complete r \<Longrightarrow> Op_MovedFrom \<notin> set xs \<Longrightarrow> apply_request_ops xs (r, w) = Inr (r', w') \<Longrightarrow> r' = r"
proof (induction xs arbitrary: w)
  case Nil
  then show ?case by simp
next
  case (Cons x xs)
  from Cons.prems(3) obtain r1 w1 where
    s1: "apply_request_op x (r, w) = Inr (r1, w1)" and
    s2: "apply_request_ops xs (r1, w1) = Inr (r', w')"
    by (auto split: sum.splits)
  from Cons.prems(2) have x: "x \<noteq> Op_MovedFrom" and xs: "Op_MovedFrom \<notin> set xs"
    by auto
  from complete_op_unchanged [OF Cons.prems(1) x s1] have "r1 = r" .
  with Cons.IH [OF Cons.prems(1) xs] s2 show ?case by simp
qed

text \<open>
  C6. The completion state of a request is monotone. A wait that returns on a pending
  request leaves it complete, and so does a poll that answers true. On a complete
  request a poll answers true and a wait returns, both leaving the request and the
  record of transport calls as they were (no further completion check is made). No run
  of operations on a complete request (poll, wait, byte count, cancel, creation test,
  being moved from) brings it back to pending, and as long as it is not moved from it
  stays the complete request it was.
\<close>

theorem request_completion_monotone:
  "(is_pending r \<and> WaitComplete r w = Inr (r1, w1) \<longrightarrow> is_complete r1) \<and>
   (IsComplete r w = Inr (True, r1, w1) \<longrightarrow> is_complete r1) \<and>
   (is_complete r \<longrightarrow>
      IsComplete r w = Inr (True, r, w) \<and> WaitComplete r w = Inr (r, w)) \<and>
   (is_complete r \<and> apply_request_ops xs (r, w) = Inr (r2, w2) \<longrightarrow>
      \<not> is_pending r2 \<and> (Op_MovedFrom \<notin> set xs \<longrightarrow> r2 = r \<and> is_complete r2))"
proof -
  have a: "is_pending r \<and> WaitComplete r w = Inr (r1, w1) \<longrightarrow> is_complete r1"
    by (auto simp: state_defs check_defs WaitComplete_def split: sum.splits)
  have b: "IsComplete r w = Inr (True, r1, w1) \<longrightarrow> is_complete r1"
    by (auto simp: state_defs check_defs IsComplete_def Let_def split: sum.splits if_splits)
  have c: "is_complete r \<longrightarrow> IsComplete r w = Inr (True, r, w) \<and> WaitComplete r w = Inr (r, w)"
    by (auto simp: state_defs check_defs IsComplete_def WaitComplete_def)
  have d: "is_complete r \<and> apply_request_ops xs (r, w) = Inr (r2, w2) \<longrightarrow>
      \<not> is_pending r2 \<and> (Op_MovedFrom \<notin> set xs \<longrightarrow> r2 = r \<and> is_complete r2)"
    using complete_ops_unchanged [of r xs w r2 w2] ops_keep_not_pending [of r xs w r2 w2]
    by (auto simp: state_defs)
  from a b c d show ?thesis by blast
qed

theorem request_completion_monotone_witness:
  "is_pending (TMpiRequest_of 5) \<and>
   WaitComplete (TMpiRequest_of 5) example_world
     = Inr (\<lparr>Flag = 1, Request = 0, Status = Some 0\<rparr>, example_world\<lparr>calls := [MPI_Wait 5]\<rparr>) \<and>
   IsComplete (TMpiRequest_of 5) example_world
     = Inr (True, \<lparr>Flag = 1, Request = 0, Status = Some 0\<rparr>, example_world\<lparr>calls := [MPI_Test 5]\<rparr>) \<and>
   is_complete \<lparr>Flag = 1, Request = 0, Status = Some 0\<rparr> \<and>
   IsComplete \<lparr>Flag = 1, Request = 0, Status = Some 0\<rparr> (example_world\<lparr>calls := [MPI_Wait 5]\<rparr>)
     = Inr (True, \<lparr>Flag = 1, Request = 0, Status = Some 0\<rparr>, example_world\<lparr>calls := [MPI_Wait 5]\<rparr>) \<and>
   WaitComplete \<lparr>Flag = 1, Request = 0, Status = Some 0\<rparr> (example_world\<lparr>calls := [MPI_Wait 5]\<rparr>)
     = Inr (\<lparr>Flag = 1, Request = 0, Status = Some 0\<rparr>, example_world\<lparr>calls := [MPI_Wait 5]\<rparr>) \<and>
   apply_request_ops [Op_IsComplete, Op_Abort, Op_ReceivedBytes, Op_WaitComplete]
       (\<lparr>Flag = 1, Request = 0, Status = Some 0\<rparr>, example_world\<lparr>calls := [MPI_Wait 5]\<rparr>)
     = Inr (\<lparr>Flag = 1, Request = 0, Status = Some 0\<rparr>,
            example_world\<lparr>calls := [MPI_Wait 5, MPI_Get_count (Some 0)]\<rparr>) \<and>
   \<not> is_pending \<lparr>Flag = 1, Request = 0, Status = Some 0\<rparr>"
  using
    request_completion_monotone [of "TMpiRequest_of 5" example_world
      "\<lparr>Flag = 1, Request = 0, Status = Some 0\<rparr>" "example_world\<lparr>calls := [MPI_Wait 5]\<rparr>"
      "[]" "TMpiRequest_of 5" example_world]
    request_completion_monotone [of "\<lparr>Flag = 1, Request = 0, Status = Some 0\<rparr>"
      "example_world\<lparr>calls := [MPI_Wait 5]\<rparr>"
      "\<lparr>Flag = 1, Request = 0, Status = Some 0\<rparr>" "example_world\<lparr>calls := [MPI_Wait 5]\<rparr>"
      "[Op_IsComplete, Op_Abort, Op_ReceivedBytes, Op_WaitComplete]"
      "\<lparr>Flag = 1, Request = 0, Status = Some 0\<rparr>"
      "example_world\<lparr>calls := [MPI_Wait 5, MPI_Get_count (Some 0)]\<rparr>"]
  by (simp add: state_defs check_defs TMpiRequest_of_def example_world_def WaitComplete_def
      IsComplete_def Abort_def ReceivedBytes_def MPI_SAFE_CALL_def mpi_def MPI_SUCCESS_def)

text \<open>
  C7. A default-constructed request is empty, and on an empty request each of poll,
  wait, byte count and cancel fails (none of them returns). Destroying a pending request
  fails; destroying an empty or a complete one succeeds.
\<close>

theorem empty_request_is_illegal:
  "is_empty (TMpiRequest_default q s) \<and>
   (is_empty r \<longrightarrow>
      IsComplete r w = Inl AssertFailed \<and> WaitComplete r w = Inl EnsureFailed \<and>
      ReceivedBytes r w = Inl EnsureFailed \<and> Abort r w = Inl EnsureFailed) \<and>
   (is_pending r \<longrightarrow> TMpiRequest_destroy r = Inl VerifyFailed) \<and>
   (is_empty r \<or> is_complete r \<longrightarrow> TMpiRequest_destroy r = Inr ())"
  by (auto simp: state_defs check_defs TMpiRequest_default_def IsComplete_def WaitComplete_def
      ReceivedBytes_def Abort_def TMpiRequest_destroy_def)

theorem empty_request_is_illegal_witness:
  "is_empty (TMpiRequest_default 0 None) \<and>
   IsComplete (TMpiRequest_default 0 None) example_world = Inl AssertFailed \<and>
   WaitComplete (TMpiRequest_default 0 None) example_world = Inl EnsureFailed \<and>
   ReceivedBytes (TMpiRequest_default 0 None) example_world = Inl EnsureFailed \<and>
   Abort (TMpiRequest_default 0 None) example_world = Inl EnsureFailed \<and>
   is_pending (TMpiRequest_of 5) \<and>
   TMpiRequest_destroy (TMpiRequest_of 5) = Inl VerifyFailed \<and>
   TMpiRequest_destroy (TMpiRequest_default 0 None) = Inr () \<and>
   is_complete \<lparr>Flag = 1, Request = 5, Status = Some 2\<rparr> \<and>
   TMpiRequest_destroy \<lparr>Flag = 1, Request = 5, Status = Some 2\<rparr> = Inr ()"
  using
    empty_request_is_illegal [of 0 None "TMpiRequest_default 0 None" example_world]
    empty_request_is_illegal [of 0 None "TMpiRequest_of 5" example_world]
    empty_request_is_illegal [of 0 None "\<lparr>Flag = 1, Request = 5, Status = Some 2\<rparr>" example_world]
  by (simp add: state_defs TMpiRequest_default_def TMpiRequest_of_def)

text \<open>
  C8, as the code has it. Cancelling a pending request issues one \<open>MPI_Cancel\<close> and,
  when that call succeeds, leaves the request empty; when it fails the process group is
  aborted. Cancelling an empty request is a usage error. Cancelling a complete request
  is not an error: the guard \<open>if (!Flag)\<close> skips the body, nothing is sent to the
  transport and the request stays complete.
\<close>

theorem cancel_by_state:
  "(is_pending r \<and> errno (replies w (length (calls w))) = MPI_SUCCESS \<longrightarrow>
      (\<exists>r' w'. Abort r w = Inr (r', w') \<and> is_empty r' \<and>
         calls w' = calls w @ [MPI_Cancel (Request r)])) \<and>
   (is_pending r \<and> errno (replies w (length (calls w))) \<noteq> MPI_SUCCESS \<longrightarrow>
      Abort r w = Inl (MpiAbort (errno (replies w (length (calls w)))))) \<and>
   (is_empty r \<longrightarrow> Abort r w = Inl EnsureFailed) \<and>
   (is_complete r \<longrightarrow> Abort r w = Inr (r, w))"
  by (auto simp: state_defs Abort_def check_defs MPI_SAFE_CALL_def mpi_def)

theorem cancel_by_state_witness:
  "is_pending (TMpiRequest_of 5) \<and>
   errno (replies example_world (length (calls example_world))) = MPI_SUCCESS \<and>
   (\<exists>r' w'. Abort (TMpiRequest_of 5) example_world = Inr (r', w') \<and> is_empty r' \<and>
      calls w' = calls example_world @ [MPI_Cancel (Request (TMpiRequest_of 5))]) \<and>
   is_empty (TMpiRequest_default 0 None) \<and>
   Abort (TMpiRequest_default 0 None) example_world = Inl EnsureFailed \<and>
   is_pending (TMpiRequest_of 5) \<and>
   errno (replies (example_world\<lparr>replies := (\<lambda>n. \<lparr>errno = 16, out_flag = False,
      out_request = 0, out_status = None, out_count = 0\<rparr>)\<rparr>) 0) \<noteq> MPI_SUCCESS \<and>
   Abort (TMpiRequest_of 5) (example_world\<lparr>replies := (\<lambda>n. \<lparr>errno = 16, out_flag = False,
      out_request = 0, out_status = None, out_count = 0\<rparr>)\<rparr>) = Inl (MpiAbort 16) \<and>
   is_complete \<lparr>Flag = 1, Request = 5, Status = Some 2\<rparr> \<and>
   Abort \<lparr>Flag = 1, Request = 5, Status = Some 2\<rparr> example_world
     = Inr (\<lparr>Flag = 1, Request = 5, Status = Some 2\<rparr>, example_world)"
  using
    cancel_by_state [of "TMpiRequest_of 5" example_world]
    cancel_by_state [of "TMpiRequest_default 0 None" example_world]
    cancel_by_state [of "TMpiRequest_of 5" "example_world\<lparr>replies := (\<lambda>n. \<lparr>errno = 16,
      out_flag = False, out_request = 0, out_status = None, out_count = 0\<rparr>)\<rparr>"]
    cancel_by_state [of "\<lparr>Flag = 1, Request = 5, Status = Some 2\<rparr>" example_world]
  by (simp add: state_defs TMpiRequest_default_def TMpiRequest_of_def example_world_def
      MPI_SUCCESS_def)

text \<open>
  The claim C8 as stated fails: cancel on a complete request returns normally, with the
  request and the world unchanged.
\<close>

theorem cancel_complete_counterexample:
  "is_complete \<lparr>Flag = 1, Request = 5, Status = Some 2\<rparr> \<and>
   Abort \<lparr>Flag = 1, Request = 5, Status = Some 2\<rparr> example_world
     = Inr (\<lparr>Flag = 1, Request = 5, Status = Some 2\<rparr>, example_world) \<and>
   \<not> (\<exists>e. Abort \<lparr>Flag = 1, Request = 5, Status = Some 2\<rparr> example_world = Inl e)"
  by (simp add: state_defs Abort_def check_defs)

text \<open>
  C10. Moving a request from a different object, by construction or by assignment,
  gives the destination the flag, the token and the status of the source and leaves
  the source empty: it reports not created and its destruction succeeds. No other
  object changes, so the only created request holding the token afterwards is the
  destination. Assigning a request to itself changes nothing.
\<close>

theorem move_transfers_request:
  "(this \<noteq> other \<longrightarrow>
      move_assign this other h this = h other \<and>
      is_empty (move_assign this other h other) \<and>
      \<not> IsCreated (move_assign this other h other) \<and>
      TMpiRequest_destroy (move_assign this other h other) = Inr () \<and>
      (\<forall>a. a \<noteq> this \<and> a \<noteq> other \<longrightarrow> move_assign this other h a = h a) \<and>
      move_construct this other h this = h other \<and>
      is_empty (move_construct this other h other) \<and>
      \<not> IsCreated (move_construct this other h other) \<and>
      TMpiRequest_destroy (move_construct this other h other) = Inr () \<and>
      (\<forall>a. a \<noteq> this \<and> a \<noteq> other \<longrightarrow> move_construct this other h a = h a)) \<and>
   move_assign this this h = h"
  by (auto simp: move_assign_def move_construct_def Let_def Clear_def state_defs IsCreated_def
      TMpiRequest_destroy_def check_defs)

theorem move_transfers_request_witness:
  "(1 :: nat) \<noteq> 2 \<and>
   move_assign 1 2 (\<lambda>a. if a = 2 then TMpiRequest_of 5 else TMpiRequest_default 0 None) 1
     = TMpiRequest_of 5 \<and>
   is_empty (move_assign 1 2 (\<lambda>a. if a = 2 then TMpiRequest_of 5 else TMpiRequest_default 0 None) 2) \<and>
   TMpiRequest_destroy
     (move_assign 1 2 (\<lambda>a. if a = 2 then TMpiRequest_of 5 else TMpiRequest_default 0 None) 2) = Inr () \<and>
   move_assign 1 2 (\<lambda>a. if a = 2 then TMpiRequest_of 5 else TMpiRequest_default 0 None) 3
     = TMpiRequest_default 0 None \<and>
   move_construct 1 2 (\<lambda>a. if a = 2 then TMpiRequest_of 5 else TMpiRequest_default 0 None) 1
     = TMpiRequest_of 5 \<and>
   \<not> IsCreated
     (move_construct 1 2 (\<lambda>a. if a = 2 then TMpiRequest_of 5 else TMpiRequest_default 0 None) 2) \<and>
   move_assign 2 2 (\<lambda>a. if a = 2 then TMpiRequest_of 5 else TMpiRequest_default 0 None) 2
     = TMpiRequest_of 5"
  using move_transfers_request [of 1 2
      "\<lambda>a. if a = 2 then TMpiRequest_of 5 else TMpiRequest_default 0 None"]
    move_transfers_request [of 2 2
      "\<lambda>a. if a = 2 then TMpiRequest_of 5 else TMpiRequest_default 0 None"]
  by simp

section \<open>Casts between the machine types\<close>

lemma unat_of_nat64: "n < 2 ^ 64 \<Longrightarrow> unat (of_nat n :: 64 word) = n"
  by (simp add: unat_of_nat)

lemma sint_of_nat32: "n < 2 ^ 31 \<Longrightarrow> sint (of_nat n :: 32 word) = int n"
  by (simp add: signed_of_nat signed_take_bit_int_eq_self)

lemma scast_of_nat32: "n < 2 ^ 31 \<Longrightarrow> (scast (of_nat n :: 32 word) :: 64 word) = of_nat n"
  by (simp add: signed_of_nat signed_take_bit_int_eq_self)

lemma ucast_of_nat_64_32: "n < 2 ^ 64 \<Longrightarrow> (ucast (of_nat n :: 64 word) :: 32 word) = of_nat n"
  by (simp add: unsigned_of_nat take_bit_nat_eq_self)

lemma sint_ucast_small:
  fixes x :: "64 word"
  assumes "unat x < 2 ^ 31"
  shows "sint (ucast x :: 32 word) = int (unat x)"
proof -
  have lt: "unat x < 2 ^ 64" using assms by simp
  have "sint (ucast (of_nat (unat x) :: 64 word) :: 32 word) = int (unat x)"
    by (simp only: ucast_of_nat_64_32 [OF lt] sint_of_nat32 [OF assms])
  then show ?thesis by simp
qed

lemma ucast_small_eq_0:
  fixes x :: "64 word"
  assumes "unat x < 2 ^ 31"
  shows "((ucast x :: 32 word) = 0) = (x = 0)"
proof
  assume "(ucast x :: 32 word) = 0"
  then have "sint (ucast x :: 32 word) = 0" by simp
  with sint_ucast_small [OF assms] have "int (unat x) = 0" by (simp only:)
  then have "unat x = 0" by linarith
  then show "x = 0" by (simp only: unat_eq_0)
next
  assume "x = 0" then show "(ucast x :: 32 word) = 0" by simp
qed

lemma small_roundtrip:
  fixes m :: "64 word"
  assumes "unat m < 2 ^ 31"
  shows "(scast (ucast m :: 32 word) :: 64 word) = m"
proof -
  have m: "m = of_nat (unat m)" by simp
  have lt: "unat m < 2 ^ 64" using assms by simp
  have "(scast (ucast (of_nat (unat m) :: 64 word) :: 32 word) :: 64 word) = of_nat (unat m)"
    by (simp only: ucast_of_nat_64_32 [OF lt] scast_of_nat32 [OF assms])
  with m show ?thesis by simp
qed

lemma sint_succ:
  fixes x :: "32 word"
  assumes "0 \<le> sint x" "sint x < 2147483647"
  shows "sint (x + 1) = sint x + 1"
proof -
  have "sint (x + 1) = signed_take_bit 31 (sint x + 1)"
    by (simp add: sint_word_add)
  also have "\<dots> = sint x + 1"
    using assms by (simp add: signed_take_bit_int_eq_self)
  finally show ?thesis .
qed

section \<open>Task dispatch\<close>

lemma BufferSize_int: "sint (ucast BufferSize :: 32 word) = 33554432"
  by (simp add: BufferSize_def)

text \<open>
  C2, as the code has it. On the master, for a device with a non-negative local id and
  a payload whose size the cast to \<open>int\<close> keeps (below \<open>2^31\<close>): \<open>SendTask\<close> fails
  when the payload is empty or its size is at least \<open>BufferSize\<close> (32 MiB), so a
  payload of exactly 32 MiB fails and so does one of 32 MiB plus one byte; a payload
  of one byte up to 32 MiB minus one byte is handed to the transport in one send
  (buffered or synchronous, by \<open>UseBSendForTasks\<close>) to the device's host under the tag
  \<open>DeviceId + 1\<close>, and the call succeeds when that send does.
\<close>

theorem SendTask_size_check:
  "IsMaster m \<and> 0 \<le> sint (DeviceId d) \<and> unat (Size task) < 2 ^ 31 \<longrightarrow>
     sint (ucast (Size task) :: i32) = int (unat (Size task)) \<and>
     (Size task = 0 \<or> BufferSize \<le> Size task \<longrightarrow> SendTask m task d w = Inl AssertFailed) \<and>
     (0 < Size task \<and> Size task < BufferSize \<and>
      errno (replies w (length (calls w))) = MPI_SUCCESS \<longrightarrow>
        (\<exists>w'. SendTask m task d w = Inr w' \<and>
           calls w' = calls w @
             [(if UseBSendForTasks m then MPI_Bsend else MPI_Send)
                (Data task) (ucast (Size task)) (dev_HostId d) (DeviceId d + 1)]))"
proof (intro impI, elim conjE)
  assume master: "IsMaster m" and dev: "0 \<le> sint (DeviceId d)"
    and small: "unat (Size task) < 2 ^ 31"
  note sz = sint_ucast_small [OF small]
  have lt: "(sint (ucast (Size task) :: i32) < sint (ucast BufferSize :: i32))
      = (Size task < BufferSize)"
  proof -
    have "(sint (ucast (Size task) :: i32) < sint (ucast BufferSize :: i32))
        = (int (unat (Size task)) < 33554432)"
      by (simp only: sz BufferSize_int)
    also have "\<dots> = (unat (Size task) < 33554432)"
      by linarith
    also have "\<dots> = (Size task < BufferSize)"
      by (simp add: word_less_nat_alt BufferSize_def)
    finally show ?thesis .
  qed
  have z: "((ucast (Size task) :: i32) = 0) = (Size task = 0)"
    by (rule ucast_small_eq_0 [OF small])
  have fail: "Size task = 0 \<or> BufferSize \<le> Size task \<longrightarrow> SendTask m task d w = Inl AssertFailed"
    using master by (auto simp: SendTask_def check_defs Let_def lt z)
  have succeed: "0 < Size task \<and> Size task < BufferSize \<and>
      errno (replies w (length (calls w))) = MPI_SUCCESS \<longrightarrow>
        (\<exists>w'. SendTask m task d w = Inr w' \<and>
           calls w' = calls w @
             [(if UseBSendForTasks m then MPI_Bsend else MPI_Send)
                (Data task) (ucast (Size task)) (dev_HostId d) (DeviceId d + 1)])"
    using master dev
    by (auto simp: SendTask_def check_defs Let_def lt z GetTaskTag_def MPI_SAFE_CALL_def mpi_def)
  from sz fail succeed
  show "sint (ucast (Size task) :: i32) = int (unat (Size task)) \<and>
     (Size task = 0 \<or> BufferSize \<le> Size task \<longrightarrow> SendTask m task d w = Inl AssertFailed) \<and>
     (0 < Size task \<and> Size task < BufferSize \<and>
      errno (replies w (length (calls w))) = MPI_SUCCESS \<longrightarrow>
        (\<exists>w'. SendTask m task d w = Inr w' \<and>
           calls w' = calls w @
             [(if UseBSendForTasks m then MPI_Bsend else MPI_Send)
                (Data task) (ucast (Size task)) (dev_HostId d) (DeviceId d + 1)]))"
    by blast
qed

theorem SendTask_size_check_witness:
  "IsMaster \<lparr>HostCount = 2, HostId = 0, Counter = 0, UseBSendForTasks = False\<rparr> \<and>
   0 \<le> sint (DeviceId \<lparr>dev_HostId = 1, DeviceId = 0\<rparr>) \<and>
   unat (33554431 :: ui64) < 2 ^ 31 \<and>
   (\<exists>w'. SendTask \<lparr>HostCount = 2, HostId = 0, Counter = 0, UseBSendForTasks = False\<rparr>
            \<lparr>Data = 0, Size = 33554431\<rparr> \<lparr>dev_HostId = 1, DeviceId = 0\<rparr> example_world = Inr w' \<and>
         calls w' = [MPI_Send 0 33554431 1 1]) \<and>
   SendTask \<lparr>HostCount = 2, HostId = 0, Counter = 0, UseBSendForTasks = False\<rparr>
     \<lparr>Data = 0, Size = 0\<rparr> \<lparr>dev_HostId = 1, DeviceId = 0\<rparr> example_world = Inl AssertFailed \<and>
   SendTask \<lparr>HostCount = 2, HostId = 0, Counter = 0, UseBSendForTasks = False\<rparr>
     \<lparr>Data = 0, Size = 33554432\<rparr> \<lparr>dev_HostId = 1, DeviceId = 0\<rparr> example_world = Inl AssertFailed \<and>
   SendTask \<lparr>HostCount = 2, HostId = 0, Counter = 0, UseBSendForTasks = False\<rparr>
     \<lparr>Data = 0, Size = 33554433\<rparr> \<lparr>dev_HostId = 1, DeviceId = 0\<rparr> example_world = Inl AssertFailed"
  using
    SendTask_size_check [of "\<lparr>HostCount = 2, HostId = 0, Counter = 0, UseBSendForTasks = False\<rparr>"
      "\<lparr>dev_HostId = 1, DeviceId = 0\<rparr>" "\<lparr>Data = 0, Size = 33554431\<rparr>" example_world]
    SendTask_size_check [of "\<lparr>HostCount = 2, HostId = 0, Counter = 0, UseBSendForTasks = False\<rparr>"
      "\<lparr>dev_HostId = 1, DeviceId = 0\<rparr>" "\<lparr>Data = 0, Size = 0\<rparr>" example_world]
    SendTask_size_check [of "\<lparr>HostCount = 2, HostId = 0, Counter = 0, UseBSendForTasks = False\<rparr>"
      "\<lparr>dev_HostId = 1, DeviceId = 0\<rparr>" "\<lparr>Data = 0, Size = 33554432\<rparr>" example_world]
    SendTask_size_check [of "\<lparr>HostCount = 2, HostId = 0, Counter = 0, UseBSendForTasks = False\<rparr>"
      "\<lparr>dev_HostId = 1, DeviceId = 0\<rparr>" "\<lparr>Data = 0, Size = 33554433\<rparr>" example_world]
  by (simp add: IsMaster_def BufferSize_def example_world_def MPI_SUCCESS_def)

text \<open>
  The claim C2 as stated fails: a payload of exactly \<open>BufferSize\<close> bytes does not pass
  \<open>Y_ASSERT(size < (int)BufferSize)\<close>.
\<close>

theorem SendTask_exact_maximum_counterexample:
  "unat BufferSize = 32 * 1024 * 1024 \<and>
   SendTask \<lparr>HostCount = 2, HostId = 0, Counter = 0, UseBSendForTasks = False\<rparr>
     \<lparr>Data = 0, Size = BufferSize\<rparr> \<lparr>dev_HostId = 1, DeviceId = 0\<rparr> example_world
     = Inl AssertFailed"
  by (simp add: SendTask_def check_defs IsMaster_def BufferSize_def)

section \<open>Tags\<close>

text \<open>
  C3, at the inputs where the code departs from it. The counter is a 64-bit value and
  the tag an \<open>int\<close>: the allocation that brings the counter to \<open>2^31\<close> casts it to
  the least \<open>int\<close>, whose negation is itself, and returns the negative tag
  \<open>-33553409\<close>. The allocations just before and just after it (counter values
  \<open>2^31 - 1\<close> and \<open>2^31 + 1\<close>, two apart) return the same tag \<open>33554431\<close>.
\<close>

theorem NextCommunicationTag_at_int_overflow:
  "NextCommunicationTag \<lparr>HostCount = 2, HostId = 0, Counter = 2147483647, UseBSendForTasks = False\<rparr>
     = Inr (- 33553409, \<lparr>HostCount = 2, HostId = 0, Counter = 2147483648, UseBSendForTasks = False\<rparr>) \<and>
   sint (- 33553409 :: i32) = - 33553409 \<and>
   NextCommunicationTag \<lparr>HostCount = 2, HostId = 0, Counter = 2147483646, UseBSendForTasks = False\<rparr>
     = Inr (33554431, \<lparr>HostCount = 2, HostId = 0, Counter = 2147483647, UseBSendForTasks = False\<rparr>) \<and>
   NextCommunicationTag \<lparr>HostCount = 2, HostId = 0, Counter = 2147483648, UseBSendForTasks = False\<rparr>
     = Inr (33554431, \<lparr>HostCount = 2, HostId = 0, Counter = 2147483649, UseBSendForTasks = False\<rparr>)"
  by (simp add: NextCommunicationTag_def check_defs IsMaster_def AtomicIncrement_def int_rem_def
      signed_modulo_int_def)

lemma allocated_low_bits:
  "NextCommunicationTag m = Inr (t, m') \<Longrightarrow> t AND 1023 = 1023"
  by (auto simp: NextCommunicationTag_def check_defs Let_def AtomicIncrement_def word_ao_absorbs(5)
      split: if_splits)

lemma small_not_all_ones:
  fixes x :: "32 word"
  assumes "0 \<le> sint x" "sint x < 1022"
  shows "(x + 1) AND 1023 \<noteq> 1023"
proof
  assume eq: "(x + 1) AND 1023 = 1023"
  define n where "n = nat (sint x)"
  from assms have n: "sint x = int n" "n < 1022" by (simp_all add: n_def)
  have "x = word_of_int (sint x)" by simp
  also have "\<dots> = of_nat n" by (simp only: n of_int_of_nat_eq)
  finally have x: "x + 1 = of_nat (Suc n)" by simp
  have "unat (of_nat (Suc n) :: 32 word) = Suc n"
    using n by (simp only: unat_of_nat) simp
  with x have u: "unat (x + 1) = Suc n" by (simp only:)
  have "(x + 1) AND 1023 \<le> x + 1" by (rule word_and_le2)
  with eq have "1023 \<le> x + 1" by simp
  then have "unat (1023 :: 32 word) \<le> unat (x + 1)" by (simp only: word_le_nat_alt)
  with u n show False by simp
qed

text \<open>
  Below the overflow the allocator keeps its promise: as long as the counter value it
  draws is below \<open>2^31\<close>, the tag is \<open>(counter mod 65535) * 1024 + 1023\<close>, which
  is positive and has the ten low-order bits set, and two allocations whose counters
  are less than 65535 apart get different tags.
\<close>

lemma shifted_or_low: "(push_bit 10 x :: 32 word) OR 1023 = push_bit 10 x + 1023"
proof -
  have "(push_bit 10 x :: 32 word) AND mask 10 = 0"
    by (simp add: take_bit_eq_mask [symmetric] take_bit_push_bit)
  moreover have "(mask 10 :: 32 word) = 1023"
    by (simp add: mask_eq_exp_minus_1)
  ultimately have "(push_bit 10 x :: 32 word) AND 1023 = 0" by simp
  from disjunctive_add_eq_or [OF this] show ?thesis by simp
qed

lemma NextCommunicationTag_below_overflow:
  assumes master: "IsMaster m" and small: "unat (Counter m) + 1 < 2 ^ 31"
  shows "\<exists>t. NextCommunicationTag m = Inr (t, m\<lparr>Counter := Counter m + 1\<rparr>) \<and>
           sint t = int (((unat (Counter m) + 1) mod 65535) * 1024 + 1023)"
proof -
  define c where "c = unat (Counter m) + 1"
  define r where "r = c mod 65535"
  have c31: "c < 2 ^ 31" using small by (simp add: c_def)
  then have c64: "c < 2 ^ 64" by simp
  have r: "r < 65535" by (simp add: r_def)
  have cnt: "Counter m + 1 = of_nat c" by (simp add: c_def)
  have t0: "(ucast (Counter m + 1) :: i32) = of_nat c"
    by (simp only: cnt ucast_of_nat_64_32 [OF c64])
  have s0: "sint (of_nat c :: i32) = int c" by (rule sint_of_nat32 [OF c31])
  have cyc: "sint (push_bit 16 (1 :: i32) - 1) = 65535" by simp
  have "0 < c" by (simp add: c_def)
  then have cpos: "0 < int c" by (simp only: of_nat_0_less_iff)
  then have "sgn (int c) = 1" by simp
  then have "int c smod 65535 = int c mod 65535"
    by (simp add: signed_modulo_int_def)
  also have "\<dots> = int (c mod 65535)"
    by (simp add: zmod_int)
  finally have e: "int c smod 65535 = int r"
    by (simp only: r_def)
  have rem: "int_rem (of_nat c) (push_bit 16 (1 :: i32) - 1) = of_nat r"
    by (simp only: int_rem_def s0 cyc e of_int_of_nat_eq)
  from rem have rem': "int_rem (of_nat c) 65535 = of_nat r" by simp
  have val: "push_bit 10 (of_nat r :: i32) OR 1023 = of_nat (r * 1024 + 1023)"
    by (simp only: shifted_or_low) (simp add: push_bit_eq_mult)
  have "r * 1024 + 1023 < 2 ^ 31" using r by simp
  from sint_of_nat32 [OF this] have sv: "sint (of_nat (r * 1024 + 1023) :: i32) = int (r * 1024 + 1023)" .
  have "NextCommunicationTag m = Inr (of_nat (r * 1024 + 1023), m\<lparr>Counter := Counter m + 1\<rparr>)"
    using master
    by (simp add: NextCommunicationTag_def check_defs AtomicIncrement_def Let_def t0 s0 rem' val
        del: of_nat_add of_nat_mult)
  with sv show ?thesis
    unfolding r_def c_def by blast
qed

lemma mod_apart:
  fixes a b :: nat
  assumes "a < b" "b - a < n" "a mod n = b mod n"
  shows False
proof -
  from assms(1) have le: "a \<le> b" by simp
  from assms(3) have "b mod n = a mod n" by simp
  with le have "n dvd b - a" by (simp add: mod_eq_dvd_iff_nat)
  moreover from assms(1) have "0 < b - a" by simp
  ultimately have "n \<le> b - a" by (rule dvd_imp_le)
  with assms(2) show False by simp
qed

lemma tags_below_overflow:
  assumes m1: "IsMaster m1" "unat (Counter m1) + 1 < 2 ^ 31" "NextCommunicationTag m1 = Inr (t1, m1')"
    and m2: "IsMaster m2" "unat (Counter m2) + 1 < 2 ^ 31" "NextCommunicationTag m2 = Inr (t2, m2')"
    and near: "unat (Counter m1) < unat (Counter m2)" "unat (Counter m2) - unat (Counter m1) < 65535"
  shows "0 < sint t1 \<and> t1 AND 1023 = 1023 \<and> t1 \<noteq> t2"
proof -
  from NextCommunicationTag_below_overflow [OF m1(1) m1(2)] m1(3)
  have v1: "sint t1 = int (((unat (Counter m1) + 1) mod 65535) * 1024 + 1023)" by auto
  from NextCommunicationTag_below_overflow [OF m2(1) m2(2)] m2(3)
  have v2: "sint t2 = int (((unat (Counter m2) + 1) mod 65535) * 1024 + 1023)" by auto
  have pos: "0 < sint t1" by (simp add: v1)
  have "t1 \<noteq> t2"
  proof
    assume "t1 = t2"
    with v1 v2 have "int (((unat (Counter m1) + 1) mod 65535) * 1024 + 1023)
        = int (((unat (Counter m2) + 1) mod 65535) * 1024 + 1023)" by simp
    then have "((unat (Counter m1) + 1) mod 65535) * 1024 + 1023
        = ((unat (Counter m2) + 1) mod 65535) * 1024 + 1023"
      by (simp only: of_nat_eq_iff)
    then have "(unat (Counter m1) + 1) mod 65535 = (unat (Counter m2) + 1) mod 65535"
      by simp
    with mod_apart [of "unat (Counter m1) + 1" "unat (Counter m2) + 1" 65535] near
    show False by simp
  qed
  with pos allocated_low_bits [OF m1(3)] show ?thesis by simp
qed

text \<open>
  C9, as the code has it. For every device whose local id is non-negative and below the
  greatest \<open>int\<close>, the inbox tag computed by \<open>GetTaskTag\<close> is the local id plus one.
  When moreover the local id is below 1022, or more generally when the ten low-order
  bits of the inbox tag are not all set, the inbox tag differs from every tag the
  allocator can return (all of which have the ten low-order bits set).
\<close>

theorem inbox_tag_apart_from_allocated:
  "0 \<le> sint (DeviceId d) \<and> sint (DeviceId d) < 2147483647 \<longrightarrow>
     (\<exists>t. GetTaskTag d = Inr t \<and> t = DeviceId d + 1 \<and> sint t = sint (DeviceId d) + 1 \<and>
        (sint (DeviceId d) < 1022 \<or> t AND 1023 \<noteq> 1023 \<longrightarrow>
           (\<forall>m t' m'. NextCommunicationTag m = Inr (t', m') \<longrightarrow> t' \<noteq> t)))"
proof (intro impI, elim conjE)
  assume lo: "0 \<le> sint (DeviceId d)" and hi: "sint (DeviceId d) < 2147483647"
  have tag: "GetTaskTag d = Inr (DeviceId d + 1)"
    using lo by (simp add: GetTaskTag_def check_defs)
  have val: "sint (DeviceId d + 1) = sint (DeviceId d) + 1"
    by (rule sint_succ [OF lo hi])
  have apart: "sint (DeviceId d) < 1022 \<or> (DeviceId d + 1) AND 1023 \<noteq> 1023 \<longrightarrow>
      (\<forall>m t' m'. NextCommunicationTag m = Inr (t', m') \<longrightarrow> t' \<noteq> DeviceId d + 1)"
  proof
    assume sep: "sint (DeviceId d) < 1022 \<or> (DeviceId d + 1) AND 1023 \<noteq> 1023"
    from sep lo have bits: "(DeviceId d + 1) AND 1023 \<noteq> 1023"
      using small_not_all_ones [of "DeviceId d"] by blast
    show "\<forall>m t' m'. NextCommunicationTag m = Inr (t', m') \<longrightarrow> t' \<noteq> DeviceId d + 1"
      using allocated_low_bits bits by blast
  qed
  from tag val apart
  show "\<exists>t. GetTaskTag d = Inr t \<and> t = DeviceId d + 1 \<and> sint t = sint (DeviceId d) + 1 \<and>
        (sint (DeviceId d) < 1022 \<or> t AND 1023 \<noteq> 1023 \<longrightarrow>
           (\<forall>m t' m'. NextCommunicationTag m = Inr (t', m') \<longrightarrow> t' \<noteq> t))"
    by blast
qed

theorem inbox_tag_apart_from_allocated_witness:
  "0 \<le> sint (DeviceId \<lparr>dev_HostId = 1, DeviceId = 3\<rparr>) \<and>
   sint (DeviceId \<lparr>dev_HostId = 1, DeviceId = 3\<rparr>) < 1022 \<and>
   GetTaskTag \<lparr>dev_HostId = 1, DeviceId = 3\<rparr> = Inr 4 \<and>
   sint (4 :: i32) = sint (DeviceId \<lparr>dev_HostId = 1, DeviceId = 3\<rparr>) + 1 \<and>
   (\<exists>t. GetTaskTag \<lparr>dev_HostId = 1, DeviceId = 3\<rparr> = Inr t \<and> sint t = 4 \<and>
      (\<forall>m t' m'. NextCommunicationTag m = Inr (t', m') \<longrightarrow> t' \<noteq> t)) \<and>
   NextCommunicationTag \<lparr>HostCount = 2, HostId = 0, Counter = 3, UseBSendForTasks = False\<rparr>
     = Inr (5119, \<lparr>HostCount = 2, HostId = 0, Counter = 4, UseBSendForTasks = False\<rparr>) \<and>
   0 \<le> sint (DeviceId \<lparr>dev_HostId = 0, DeviceId = 1022\<rparr>) \<and>
   sint (DeviceId \<lparr>dev_HostId = 0, DeviceId = 1022\<rparr>) < 2147483647 \<and>
   GetTaskTag \<lparr>dev_HostId = 0, DeviceId = 1022\<rparr> = Inr 1023 \<and>
   sint (1023 :: i32) = sint (DeviceId \<lparr>dev_HostId = 0, DeviceId = 1022\<rparr>) + 1"
  using inbox_tag_apart_from_allocated [of "\<lparr>dev_HostId = 1, DeviceId = 3\<rparr>"]
    inbox_tag_apart_from_allocated [of "\<lparr>dev_HostId = 0, DeviceId = 1022\<rparr>"]
  by (simp add: GetTaskTag_def NextCommunicationTag_def check_defs IsMaster_def
      AtomicIncrement_def int_rem_def signed_modulo_int_def)

text \<open>
  The claim C9 as stated fails: the device with local id 1022 has the inbox tag 1023,
  which is the tag the allocator returns when the counter reaches 65535.
\<close>

theorem inbox_tag_collision_counterexample:
  "GetTaskTag \<lparr>dev_HostId = 0, DeviceId = 1022\<rparr> = Inr 1023 \<and>
   NextCommunicationTag \<lparr>HostCount = 2, HostId = 0, Counter = 65534, UseBSendForTasks = False\<rparr>
     = Inr (1023, \<lparr>HostCount = 2, HostId = 0, Counter = 65535, UseBSendForTasks = False\<rparr>)"
  by (simp add: GetTaskTag_def NextCommunicationTag_def check_defs IsMaster_def
      AtomicIncrement_def int_rem_def signed_modulo_int_def)

section \<open>Chunked transfers\<close>

subsection \<open>The default block size\<close>

lemma default_blockSize_eq: "default_blockSize dataSize = min dataSize 1073741824"
proof -
  have "min dataSize 1073741824 \<le> (1073741824 :: 64 word)"
    by simp
  then have "unat (min dataSize 1073741824) \<le> unat (1073741824 :: 64 word)"
    by (simp only: word_le_nat_alt)
  then have "unat (min dataSize 1073741824) < 2 ^ 31" by simp
  from small_roundtrip [OF this] show ?thesis
    by (simp add: default_blockSize_def)
qed

lemma unat_default_blockSize: "unat (default_blockSize dataSize) = min (unat dataSize) cap"
  by (simp add: default_blockSize_eq cap_def min_def word_le_nat_alt)

subsection \<open>The loop on naturals and the layout of the specification\<close>

lemma ceil_cover: "0 < b \<Longrightarrow> s \<le> (s + b - 1) div b * (b :: nat)"
proof -
  assume b: "0 < b"
  have "(s + b - 1) div b * b = (s + b - 1) - (s + b - 1) mod b"
    by (simp add: minus_mod_eq_div_mult)
  moreover have "(s + b - 1) mod b \<le> b - 1"
    using b by (simp add: less_Suc_eq_le [symmetric])
  ultimately show ?thesis using b by simp
qed

lemma below_ceil: "0 < b \<Longrightarrow> k < (s + b - 1) div b \<Longrightarrow> k * b < (s :: nat)"
proof -
  assume b: "0 < b" and k: "k < (s + b - 1) div b"
  from k have "Suc k \<le> (s + b - 1) div b" by simp
  with b have "Suc k * b \<le> s + b - 1" by (simp add: less_eq_div_iff_mult_less_eq)
  with b show ?thesis by simp
qed

lemma block_plan_from:
  assumes b: "0 < b"
  shows "k \<le> (s + b - 1) div b \<Longrightarrow>
     block_plan s b (k * b) = map (\<lambda>k. (k * b, min b (s - k * b))) [k..<(s + b - 1) div b]"
proof (induction "(s + b - 1) div b - k" arbitrary: k)
  case 0
  then have k: "k = (s + b - 1) div b" by simp
  from ceil_cover [OF b, of s] have "\<not> k * b < s" by (simp add: k)
  then show ?case by (subst block_plan.simps) (simp add: k)
next
  case (Suc d)
  then have lt: "k < (s + b - 1) div b" by simp
  from below_ceil [OF b lt] have kb: "k * b < s" .
  from Suc(2) lt have d: "d = (s + b - 1) div b - Suc k" by simp
  from lt have le: "Suc k \<le> (s + b - 1) div b" by simp
  have "block_plan s b (k * b) = (k * b, min b (s - k * b)) # block_plan s b (Suc k * b)"
    using kb b by (subst block_plan.simps) (simp add: add.commute)
  with Suc(1) [OF d le] lt show ?case
    by (simp add: upt_conv_Cons)
qed

lemma block_plan_spec: "0 < b \<Longrightarrow> block_plan s b 0 = spec_blocks s b"
  using block_plan_from [of b 0 s] by (simp add: spec_blocks_def)

subsection \<open>What a run of successful calls leaves behind\<close>

lemma mpi_ok_step: "mpi_ok w \<Longrightarrow> mpi_ok (w\<lparr>calls := cs\<rparr>)"
  by (simp add: mpi_ok_def)

lemma issue_all_calls: "calls (snd (issue_all cs (reqs, w))) = calls w @ cs"
  by (induction cs arbitrary: reqs w) simp_all

lemma issue_all_replies: "replies (snd (issue_all cs (reqs, w))) = replies w"
  by (induction cs arbitrary: reqs w) simp_all

lemma issue_all_requests:
  "fst (issue_all cs (reqs, w)) =
     reqs @ map (\<lambda>k. TMpiRequest_of (out_request (replies w (length (calls w) + k)))) [0..<length cs]"
proof (induction cs arbitrary: reqs w)
  case Nil
  then show ?case by simp
next
  case (Cons c cs)
  have "[0..<length (c # cs)] = 0 # map Suc [0..<length cs]"
    by (simp add: upt_conv_Cons map_Suc_upt del: upt_Suc)
  then show ?case
    by (simp add: Cons.IH comp_def del: upt_Suc)
qed

lemma WriteAsync_ok:
  "mpi_ok w \<Longrightarrow> WriteAsync p n destRank tag w =
      Inr (TMpiRequest_of (out_request (replies w (length (calls w)))),
           w\<lparr>calls := calls w @ [MPI_Isend p n destRank tag]\<rparr>)"
  by (simp add: WriteAsync_def MPI_SAFE_CALL_def mpi_def mpi_ok_def)

lemma ReadAsync_ok:
  "mpi_ok w \<Longrightarrow> ReadAsync p n sourceRank tag w =
      Inr (TMpiRequest_of (out_request (replies w (length (calls w)))),
           w\<lparr>calls := calls w @ [MPI_Irecv p n sourceRank tag]\<rparr>)"
  by (simp add: ReadAsync_def MPI_SAFE_CALL_def mpi_def mpi_ok_def)

subsection \<open>The loops of the source follow the loop on naturals\<close>

lemma word64_less_of_nat:
  "a < 2 ^ 64 \<Longrightarrow> b < 2 ^ 64 \<Longrightarrow> ((of_nat a :: 64 word) < of_nat b) = (a < b)"
  by (simp add: word_less_nat_alt unat_of_nat64)

lemma word64_min_of_nat:
  "a < 2 ^ 64 \<Longrightarrow> b < 2 ^ 64 \<Longrightarrow> min (of_nat a :: 64 word) (of_nat b) = of_nat (min a b)"
  by (simp add: min_def word_le_nat_alt unat_of_nat64)

lemma block_size_cast:
  assumes "off < s" "s < 2 ^ 64" "b < 2 ^ 64"
  shows "(ucast (min (of_nat b :: 64 word) (of_nat s - of_nat off)) :: 32 word)
         = of_nat (min b (s - off))"
proof -
  have sub: "(of_nat s :: 64 word) - of_nat off = of_nat (s - off)"
    using assms(1) by simp
  have d: "s - off < 2 ^ 64" using assms(2) by simp
  have m: "min b (s - off) < 2 ^ 64" using assms(3) by simp
  have "min (of_nat b :: 64 word) (of_nat s - of_nat off) = of_nat (min b (s - off))"
    by (simp only: sub word64_min_of_nat [OF assms(3) d])
  then show ?thesis
    by (simp only: ucast_of_nat_64_32 [OF m])
qed

lemma WriteAsync_loop_plan:
  assumes ok: "mpi_ok w" and bpos: "0 < b" and nowrap: "s + b \<le> 2 ^ 64" and off: "off < s + b"
  shows "WriteAsync_loop data (of_nat s) (of_nat b) destRank tag (of_nat off) reqs w =
         Some (Inr (issue_all (map (isend_of_block data destRank tag) (block_plan s b off)) (reqs, w)))"
  using ok bpos nowrap off
proof (induction s b off arbitrary: reqs w rule: block_plan.induct)
  case (1 s b off)
  show ?case
  proof (cases "off < s \<and> 0 < b")
    case True
    then have lt: "off < s" and b: "0 < b" by simp_all
    from lt b "1.prems" have bounds: "off < 2 ^ 64" "s < 2 ^ 64" "b < 2 ^ 64" "off + b < s + b"
      by simp_all
    have cond: "(of_nat off :: 64 word) < of_nat s"
      using lt bounds by (simp add: word64_less_of_nat)
    note sz = block_size_cast [OF lt bounds(2) bounds(3)]
    have nxt: "(of_nat off :: 64 word) + of_nat b = of_nat (off + b)"
      by simp
    have plan: "block_plan s b off = (off, min b (s - off)) # block_plan s b (off + b)"
      using True by (subst block_plan.simps) simp
    note IH = "1.IH" [OF True mpi_ok_step [OF "1.prems"(1)] "1.prems"(2) "1.prems"(3) bounds(4)]
    show ?thesis
      apply (subst WriteAsync_loop.simps)
      apply (simp only: cond if_True sz nxt WriteAsync_ok [OF "1.prems"(1)] sum.case prod.case IH)
      apply (simp add: plan isend_of_block_def)
      done
  next
    case False
    then have plan: "block_plan s b off = []"
      by (subst block_plan.simps) simp
    from False "1.prems" have ge: "s \<le> off" and bounds: "off < 2 ^ 64" "s < 2 ^ 64"
      by simp_all
    have cond: "\<not> (of_nat off :: 64 word) < of_nat s"
      using ge bounds by (simp add: word64_less_of_nat)
    show ?thesis
      apply (subst WriteAsync_loop.simps)
      apply (simp only: cond if_False plan list.map issue_all.simps)
      done
  qed
qed

lemma ReadAsync_loop_plan:
  assumes ok: "mpi_ok w" and bpos: "0 < b" and nowrap: "s + b \<le> 2 ^ 64" and off: "off < s + b"
  shows "ReadAsync_loop data (of_nat s) (of_nat b) sourceRank tag (of_nat off) reqs w =
         Some (Inr (issue_all (map (irecv_of_block data sourceRank tag) (block_plan s b off)) (reqs, w)))"
  using ok bpos nowrap off
proof (induction s b off arbitrary: reqs w rule: block_plan.induct)
  case (1 s b off)
  show ?case
  proof (cases "off < s \<and> 0 < b")
    case True
    then have lt: "off < s" and b: "0 < b" by simp_all
    from lt b "1.prems" have bounds: "off < 2 ^ 64" "s < 2 ^ 64" "b < 2 ^ 64" "off + b < s + b"
      by simp_all
    have cond: "(of_nat off :: 64 word) < of_nat s"
      using lt bounds by (simp add: word64_less_of_nat)
    note sz = block_size_cast [OF lt bounds(2) bounds(3)]
    have nxt: "(of_nat off :: 64 word) + of_nat b = of_nat (off + b)"
      by simp
    have plan: "block_plan s b off = (off, min b (s - off)) # block_plan s b (off + b)"
      using True by (subst block_plan.simps) simp
    note IH = "1.IH" [OF True mpi_ok_step [OF "1.prems"(1)] "1.prems"(2) "1.prems"(3) bounds(4)]
    show ?thesis
      apply (subst ReadAsync_loop.simps)
      apply (simp only: cond if_True sz nxt ReadAsync_ok [OF "1.prems"(1)] sum.case prod.case IH)
      apply (simp add: plan irecv_of_block_def)
      done
  next
    case False
    then have plan: "block_plan s b off = []"
      by (subst block_plan.simps) simp
    from False "1.prems" have ge: "s \<le> off" and bounds: "off < 2 ^ 64" "s < 2 ^ 64"
      by simp_all
    have cond: "\<not> (of_nat off :: 64 word) < of_nat s"
      using ge bounds by (simp add: word64_less_of_nat)
    show ?thesis
      apply (subst ReadAsync_loop.simps)
      apply (simp only: cond if_False plan list.map issue_all.simps)
      done
  qed
qed

subsection \<open>The bytes of a chunked transfer\<close>

lemma read_at_block:
  assumes "off < 2 ^ 64" "n < 2 ^ 31" "off + n \<le> length xs"
  shows "read_at data xs (data + of_nat off) (of_nat n) = Some (take n (drop off xs))"
proof -
  have i: "unat (data + of_nat off - data) = off"
    using assms(1) by (simp add: unat_of_nat64)
  show ?thesis
    unfolding read_at_def Let_def i sint_of_nat32 [OF assms(2)]
    using assms(3) by simp
qed

lemma write_at_block:
  assumes "off < 2 ^ 64" "off + length bytes \<le> length buf"
  shows "write_at data buf (data + of_nat off) bytes =
         Some (take off buf @ bytes @ drop (off + length bytes) buf)"
proof -
  have i: "unat (data + of_nat off - data) = off"
    using assms(1) by (simp add: unat_of_nat64)
  show ?thesis
    unfolding write_at_def Let_def i
    using assms(2) by simp
qed

lemma sent_messages_blocks:
  assumes len: "length xs = s" and b: "b < 2 ^ 31" and s: "s < 2 ^ 64"
  shows "sent_messages me data xs (map (isend_of_block data dest tag) (block_plan s b off)) =
         Some (map (block_message me dest tag xs) (block_plan s b off))"
  using len b s
proof (induction s b off rule: block_plan.induct)
  case (1 s b off)
  show ?case
  proof (cases "off < s \<and> 0 < b")
    case True
    then have plan: "block_plan s b off = (off, min b (s - off)) # block_plan s b (off + b)"
      by (subst block_plan.simps) simp
    from True "1.prems" have bounds: "off < 2 ^ 64" "min b (s - off) < 2 ^ 31"
      "off + min b (s - off) \<le> length xs"
      by (auto simp: min_def)
    note rd = read_at_block [OF bounds, of data]
    note IH = "1.IH" [OF True "1.prems"]
    show ?thesis
      by (simp add: plan isend_of_block_def block_message_def rd
          IH [unfolded isend_of_block_def block_message_def])
  next
    case False
    then have plan: "block_plan s b off = []"
      by (subst block_plan.simps) simp
    show ?thesis by (simp add: plan)
  qed
qed

lemma deliver_blocks:
  assumes len: "length xs = s" and b: "b < 2 ^ 31" and s: "s < 2 ^ 64" and bpos: "0 < b"
  shows "length buf = s \<Longrightarrow>
     deliver me base (map (block_message source me tag xs) (block_plan s b off))
       (map (irecv_of_block base source tag) (block_plan s b off)) buf
     = Some (take off buf @ drop off xs)"
  using len b s bpos
proof (induction s b off arbitrary: buf rule: block_plan.induct)
  case (1 s b off)
  show ?case
  proof (cases "off < s \<and> 0 < b")
    case True
    then have lt: "off < s" by simp
    have plan: "block_plan s b off = (off, min b (s - off)) # block_plan s b (off + b)"
      using True by (subst block_plan.simps) simp
    define n where "n = min b (s - off)"
    define payload where "payload = take n (drop off xs)"
    have plen: "length payload = n"
      using lt "1.prems" by (simp add: payload_def n_def)
    from lt "1.prems" have bounds: "off < 2 ^ 64" "off + length payload \<le> length buf" "n < 2 ^ 31"
      by (auto simp: plen n_def min_def)
    define buf1 where "buf1 = take off buf @ payload @ drop (off + n) buf"
    have wr: "write_at base buf (base + of_nat off) payload = Some buf1"
      using write_at_block [OF bounds(1) bounds(2), of base] by (simp add: buf1_def plen)
    have len1: "length buf1 = s"
      using lt "1.prems" by (simp add: buf1_def plen n_def)
    note IH = "1.IH" [OF True len1 "1.prems"(2) "1.prems"(3) "1.prems"(4) "1.prems"(5)]
    have fin: "take (off + b) buf1 @ drop (off + b) xs = take off buf @ drop off xs"
    proof (cases "b \<le> s - off")
      case True
      then have nb: "n = b" by (simp add: n_def)
      have "take (off + b) buf1 = take off buf @ payload"
        using lt "1.prems"(1) plen by (simp add: buf1_def nb)
      moreover have "payload @ drop (off + b) xs = drop off xs"
      proof -
        have "drop (off + b) xs = drop b (drop off xs)"
          by (simp add: add.commute)
        then show ?thesis
          by (simp only: payload_def nb append_take_drop_id)
      qed
      ultimately show ?thesis by simp
    next
      case False
      then have nb: "n = s - off" by (simp add: n_def)
      have all: "payload = drop off xs"
        using "1.prems"(2) by (simp add: payload_def nb)
      have "take (off + b) buf1 = buf1"
        using False len1 by simp
      moreover have "drop (off + b) xs = []"
        using False "1.prems"(2) by simp
      moreover have "buf1 = take off buf @ drop off xs"
        using lt "1.prems"(1) by (simp add: buf1_def all nb)
      ultimately show ?thesis by simp
    qed
    show ?thesis
      apply (simp only: plan list.map deliver.simps irecv_of_block_def recv_of.simps option.case
          prod.case fst_conv snd_conv block_message_def take_first.simps)
      apply (simp add: n_def [symmetric] payload_def [symmetric] plen sint_of_nat32 [OF bounds(3)] wr)
      apply (simp only: IH [unfolded irecv_of_block_def block_message_def] fin)
      done
  next
    case False
    then have plan: "block_plan s b off = []"
      by (subst block_plan.simps) simp
    from False "1.prems" have "s \<le> off" by simp
    with "1.prems" show ?thesis by (simp add: plan)
  qed
qed

subsection \<open>The calls of a chunked transfer\<close>

lemma blocks_layout:
  fixes dataSize blockSize :: "64 word"
  assumes ok: "mpi_ok w" and bpos: "0 < blockSize" and nowrap: "unat dataSize + unat blockSize \<le> 2 ^ 64"
  shows "WriteAsync_blocks data dataSize blockSize destRank tag requests w =
           Some (Inr (issue_all (map (isend_of_block data destRank tag)
                        (spec_blocks (unat dataSize) (unat blockSize))) (requests, w)))"
    and "ReadAsync_blocks data dataSize blockSize sourceRank tag requests w =
           Some (Inr (issue_all (map (irecv_of_block data sourceRank tag)
                        (spec_blocks (unat dataSize) (unat blockSize))) (requests, w)))"
proof -
  from bpos have b: "0 < unat blockSize" by (simp add: word_greater_zero_iff unat_gt_0)
  then have off: "0 < unat dataSize + unat blockSize" by simp
  from WriteAsync_loop_plan [OF ok b nowrap off, of data destRank tag requests]
  show "WriteAsync_blocks data dataSize blockSize destRank tag requests w =
           Some (Inr (issue_all (map (isend_of_block data destRank tag)
                        (spec_blocks (unat dataSize) (unat blockSize))) (requests, w)))"
    by (simp add: WriteAsync_blocks_def block_plan_spec [OF b])
  from ReadAsync_loop_plan [OF ok b nowrap off, of data sourceRank tag requests]
  show "ReadAsync_blocks data dataSize blockSize sourceRank tag requests w =
           Some (Inr (issue_all (map (irecv_of_block data sourceRank tag)
                        (spec_blocks (unat dataSize) (unat blockSize))) (requests, w)))"
    by (simp add: ReadAsync_blocks_def block_plan_spec [OF b])
qed

lemma issue_all_facts:
  "\<exists>reqs' w'. issue_all cs (reqs, w) = (reqs', w') \<and> calls w' = calls w @ cs \<and>
      replies w' = replies w \<and>
      reqs' = reqs @ map (\<lambda>k. TMpiRequest_of (out_request (replies w (length (calls w) + k))))
                [0..<length cs]"
  using issue_all_calls [of cs reqs w] issue_all_replies [of cs reqs w]
    issue_all_requests [of cs reqs w]
  by (cases "issue_all cs (reqs, w)") simp

lemma length_spec_blocks: "length (spec_blocks s b) = (s + b - 1) div b"
  by (simp add: spec_blocks_def)

lemma spec_blocks_sizes: "b < 2 ^ 31 \<Longrightarrow> blk \<in> set (spec_blocks s b) \<Longrightarrow> snd blk < 2 ^ 31"
  by (auto simp: spec_blocks_def)

text \<open>
  With a block size of 0 and a non-empty payload the offset never advances: the loop of
  the chunked send does not return.
\<close>

lemma WriteAsync_loop_zero_block_aux:
  assumes "WriteAsync_loop data dataSize blockSize destRank tag offset requests w = Some y"
  shows "\<not> (blockSize = 0 \<and> offset < dataSize \<and> mpi_ok w)"
proof (rule WriteAsync_loop.raw_induct [where P = "\<lambda>data dataSize blockSize destRank tag offset
       requests w y. \<not> (blockSize = 0 \<and> offset < dataSize \<and> mpi_ok w)", OF _ assms])
  fix loop :: "ptr \<Rightarrow> ui64 \<Rightarrow> ui64 \<Rightarrow> i32 \<Rightarrow> i32 \<Rightarrow> ui64 \<Rightarrow> TMpiRequest list \<Rightarrow> mpi_world
     \<Rightarrow> (error + (TMpiRequest list \<times> mpi_world)) option"
  fix data dataSize blockSize :: ui64 and destRank tag :: i32 and offset :: ui64
    and requests :: "TMpiRequest list" and w :: mpi_world and y
  assume IH: "\<And>data dataSize blockSize destRank tag offset requests w y.
      loop data dataSize blockSize destRank tag offset requests w = Some y \<Longrightarrow>
      \<not> (blockSize = 0 \<and> offset < dataSize \<and> mpi_ok w)"
  assume body: "(if offset < dataSize
      then case WriteAsync (data + offset) (ucast (min blockSize (dataSize - offset))) destRank tag w of
           Inl e \<Rightarrow> Some (Inl e)
         | Inr (req, w') \<Rightarrow>
             loop data dataSize blockSize destRank tag (offset + blockSize) (requests @ [req]) w'
      else Some (Inr (requests, w))) = Some y"
  show "\<not> (blockSize = 0 \<and> offset < dataSize \<and> mpi_ok w)"
  proof
    assume a: "blockSize = 0 \<and> offset < dataSize \<and> mpi_ok w"
    then have ok: "mpi_ok w" and lt: "offset < dataSize" and z: "blockSize = 0" by simp_all
    from body lt have
      "loop data dataSize blockSize destRank tag (offset + blockSize)
         (requests @ [TMpiRequest_of (out_request (replies w (length (calls w))))])
         (w\<lparr>calls := calls w @ [MPI_Isend (data + offset)
             (ucast (min blockSize (dataSize - offset))) destRank tag]\<rparr>) = Some y"
      by (simp add: WriteAsync_ok [OF ok])
    from IH [OF this] z lt mpi_ok_step [OF ok] show False by simp
  qed
qed

lemma WriteAsync_loop_zero_block:
  "mpi_ok w \<Longrightarrow> offset < dataSize \<Longrightarrow>
   WriteAsync_loop data dataSize 0 destRank tag offset requests w = None"
  using WriteAsync_loop_zero_block_aux [of data dataSize 0 destRank tag offset requests w]
  by (cases "WriteAsync_loop data dataSize 0 destRank tag offset requests w") auto

text \<open>
  C4, as the code has it. For a block size from 1 to \<open>2^31 - 1\<close> (what the cast of a
  block's size to \<open>int\<close> keeps) and a payload size \<open>s\<close> with \<open>s + block_size\<close> at most
  \<open>2^64\<close> (the offset does not wrap), in an environment where no transport call fails:
  the chunked send returns, having issued one \<open>MPI_Isend\<close> per block of the layout of
  the specification (offsets \<open>0\<close>, \<open>b\<close>, \<open>2 b\<close>, \<open>\<dots>\<close>, each block \<open>b\<close> bytes but a
  shorter last one), in that order, all to the same rank under the same tag, and
  having appended one pending request per block, \<open>\<lceil>s / b\<rceil>\<close> in all, to the caller's
  vector; the chunked receive does the same with \<open>MPI_Irecv\<close>. The count passed for
  each block, read as an \<open>int\<close>, is the block's length. The overloads without a block
  size run the same loops with the block size \<open>min(s, cap)\<close>.
\<close>

theorem chunked_layout:
  "(mpi_ok w \<and> 0 < blockSize \<and> unat blockSize < 2 ^ 31 \<and>
    unat dataSize + unat blockSize \<le> 2 ^ 64 \<longrightarrow>
     (\<exists>reqs' w'.
        WriteAsync_blocks data dataSize blockSize rank tag requests w = Some (Inr (reqs', w')) \<and>
        calls w' = calls w @
          map (isend_of_block data rank tag) (spec_blocks (unat dataSize) (unat blockSize)) \<and>
        replies w' = replies w \<and>
        reqs' = requests @
          map (\<lambda>k. TMpiRequest_of (out_request (replies w (length (calls w) + k))))
            [0..<(unat dataSize + unat blockSize - 1) div unat blockSize]) \<and>
     (\<exists>reqs' w'.
        ReadAsync_blocks data dataSize blockSize rank tag requests w = Some (Inr (reqs', w')) \<and>
        calls w' = calls w @
          map (irecv_of_block data rank tag) (spec_blocks (unat dataSize) (unat blockSize)) \<and>
        replies w' = replies w \<and>
        reqs' = requests @
          map (\<lambda>k. TMpiRequest_of (out_request (replies w (length (calls w) + k))))
            [0..<(unat dataSize + unat blockSize - 1) div unat blockSize]) \<and>
     (\<forall>blk \<in> set (spec_blocks (unat dataSize) (unat blockSize)).
        sint (of_nat (snd blk) :: i32) = int (snd blk))) \<and>
   WriteAsync_default data dataSize rank tag requests w =
     WriteAsync_blocks data dataSize (default_blockSize dataSize) rank tag requests w \<and>
   ReadAsync_default data dataSize rank tag requests w =
     ReadAsync_blocks data dataSize (default_blockSize dataSize) rank tag requests w \<and>
   unat (default_blockSize dataSize) = min (unat dataSize) cap"
proof -
  have main: "mpi_ok w \<and> 0 < blockSize \<and> unat blockSize < 2 ^ 31 \<and>
    unat dataSize + unat blockSize \<le> 2 ^ 64 \<longrightarrow>
     (\<exists>reqs' w'.
        WriteAsync_blocks data dataSize blockSize rank tag requests w = Some (Inr (reqs', w')) \<and>
        calls w' = calls w @
          map (isend_of_block data rank tag) (spec_blocks (unat dataSize) (unat blockSize)) \<and>
        replies w' = replies w \<and>
        reqs' = requests @
          map (\<lambda>k. TMpiRequest_of (out_request (replies w (length (calls w) + k))))
            [0..<(unat dataSize + unat blockSize - 1) div unat blockSize]) \<and>
     (\<exists>reqs' w'.
        ReadAsync_blocks data dataSize blockSize rank tag requests w = Some (Inr (reqs', w')) \<and>
        calls w' = calls w @
          map (irecv_of_block data rank tag) (spec_blocks (unat dataSize) (unat blockSize)) \<and>
        replies w' = replies w \<and>
        reqs' = requests @
          map (\<lambda>k. TMpiRequest_of (out_request (replies w (length (calls w) + k))))
            [0..<(unat dataSize + unat blockSize - 1) div unat blockSize]) \<and>
     (\<forall>blk \<in> set (spec_blocks (unat dataSize) (unat blockSize)).
        sint (of_nat (snd blk) :: i32) = int (snd blk))"
  proof (intro impI, elim conjE)
    assume ok: "mpi_ok w" and bpos: "0 < blockSize" and small: "unat blockSize < 2 ^ 31"
      and nowrap: "unat dataSize + unat blockSize \<le> 2 ^ 64"
    note lay = blocks_layout [OF ok bpos nowrap]
    from issue_all_facts [of "map (isend_of_block data rank tag)
        (spec_blocks (unat dataSize) (unat blockSize))" requests w]
    have wr: "\<exists>reqs' w'.
        WriteAsync_blocks data dataSize blockSize rank tag requests w = Some (Inr (reqs', w')) \<and>
        calls w' = calls w @
          map (isend_of_block data rank tag) (spec_blocks (unat dataSize) (unat blockSize)) \<and>
        replies w' = replies w \<and>
        reqs' = requests @
          map (\<lambda>k. TMpiRequest_of (out_request (replies w (length (calls w) + k))))
            [0..<(unat dataSize + unat blockSize - 1) div unat blockSize]"
      by (auto simp: lay(1) length_spec_blocks)
    from issue_all_facts [of "map (irecv_of_block data rank tag)
        (spec_blocks (unat dataSize) (unat blockSize))" requests w]
    have rd: "\<exists>reqs' w'.
        ReadAsync_blocks data dataSize blockSize rank tag requests w = Some (Inr (reqs', w')) \<and>
        calls w' = calls w @
          map (irecv_of_block data rank tag) (spec_blocks (unat dataSize) (unat blockSize)) \<and>
        replies w' = replies w \<and>
        reqs' = requests @
          map (\<lambda>k. TMpiRequest_of (out_request (replies w (length (calls w) + k))))
            [0..<(unat dataSize + unat blockSize - 1) div unat blockSize]"
      by (auto simp: lay(2) length_spec_blocks)
    have sz: "\<forall>blk \<in> set (spec_blocks (unat dataSize) (unat blockSize)).
        sint (of_nat (snd blk) :: i32) = int (snd blk)"
      using spec_blocks_sizes [OF small] sint_of_nat32 by blast
    from wr rd sz show "(\<exists>reqs' w'.
        WriteAsync_blocks data dataSize blockSize rank tag requests w = Some (Inr (reqs', w')) \<and>
        calls w' = calls w @
          map (isend_of_block data rank tag) (spec_blocks (unat dataSize) (unat blockSize)) \<and>
        replies w' = replies w \<and>
        reqs' = requests @
          map (\<lambda>k. TMpiRequest_of (out_request (replies w (length (calls w) + k))))
            [0..<(unat dataSize + unat blockSize - 1) div unat blockSize]) \<and>
     (\<exists>reqs' w'.
        ReadAsync_blocks data dataSize blockSize rank tag requests w = Some (Inr (reqs', w')) \<and>
        calls w' = calls w @
          map (irecv_of_block data rank tag) (spec_blocks (unat dataSize) (unat blockSize)) \<and>
        replies w' = replies w \<and>
        reqs' = requests @
          map (\<lambda>k. TMpiRequest_of (out_request (replies w (length (calls w) + k))))
            [0..<(unat dataSize + unat blockSize - 1) div unat blockSize]) \<and>
     (\<forall>blk \<in> set (spec_blocks (unat dataSize) (unat blockSize)).
        sint (of_nat (snd blk) :: i32) = int (snd blk))"
      by blast
  qed
  show ?thesis
    using main by (simp only: WriteAsync_default_def ReadAsync_default_def unat_default_blockSize)
qed

theorem chunked_layout_witness:
  "mpi_ok example_world \<and> (0 :: ui64) < 4 \<and> unat (4 :: ui64) < 2 ^ 31 \<and>
   unat (10 :: ui64) + unat (4 :: ui64) \<le> 2 ^ 64 \<and>
   spec_blocks 10 4 = [(0, 4), (4, 4), (8, 2)] \<and>
   (\<exists>reqs' w'.
      WriteAsync_blocks 100 10 4 1 1023 [] example_world = Some (Inr (reqs', w')) \<and>
      calls w' = [MPI_Isend 100 4 1 1023, MPI_Isend 104 4 1 1023, MPI_Isend 108 2 1 1023] \<and>
      replies w' = replies example_world \<and>
      reqs' = [TMpiRequest_of 0, TMpiRequest_of 1, TMpiRequest_of 2]) \<and>
   (\<exists>reqs' w'.
      ReadAsync_blocks 100 10 4 1 1023 [] example_world = Some (Inr (reqs', w')) \<and>
      calls w' = [MPI_Irecv 100 4 1 1023, MPI_Irecv 104 4 1 1023, MPI_Irecv 108 2 1 1023] \<and>
      replies w' = replies example_world \<and>
      reqs' = [TMpiRequest_of 0, TMpiRequest_of 1, TMpiRequest_of 2])"
proof -
  have u: "[0..<3] = [0, Suc 0, 2]" by code_simp
  show ?thesis
    using chunked_layout [of example_world 4 10 100 1 1023 "[]"]
    by (simp add: mpi_ok_def example_world_def MPI_SUCCESS_def spec_blocks_def
        isend_of_block_def irecv_of_block_def u)
qed

text \<open>
  The claim C4 as stated fails for a block size that the \<open>int\<close> count does not hold:
  with a payload and a block size of \<open>2^32 + 1\<close> bytes the layout has one block of
  \<open>2^32 + 1\<close> bytes, and the code issues one send of 1 byte.
\<close>

theorem chunked_block_size_counterexample:
  "WriteAsync_blocks 0 4294967297 4294967297 1 1023 [] example_world
     = Some (Inr ([TMpiRequest_of 0], example_world\<lparr>calls := [MPI_Isend 0 1 1 1023]\<rparr>)) \<and>
   spec_blocks 4294967297 4294967297 = [(0, 4294967297)]"
  apply (simp add: WriteAsync_blocks_def spec_blocks_def)
  apply (subst WriteAsync_loop.simps)
  apply (simp add: WriteAsync_def MPI_SAFE_CALL_def mpi_def example_world_def MPI_SUCCESS_def)
  apply (subst WriteAsync_loop.simps)
  apply simp
  done

subsection \<open>Round trip of a chunked transfer\<close>

lemma calls_since_issue_all:
  "issue_all cs (reqs, w) = (reqs', w') \<Longrightarrow> calls_since w w' = cs"
  using issue_all_calls [of cs reqs w] by (simp add: calls_since_def)

lemma round_trip_blocks:
  fixes blockSize :: "64 word"
  assumes bpos: "0 < blockSize" and small: "unat blockSize < 2 ^ 31"
    and len: "length xs \<le> 4 * cap" and buf: "length buf = length xs"
    and oks: "mpi_ok ws" and okr: "mpi_ok wr"
  shows "\<exists>sreqs ws' rreqs wr' msgs.
      WriteAsync_blocks src (of_nat (length xs)) blockSize receiver tag sreqs0 ws
        = Some (Inr (sreqs, ws')) \<and>
      ReadAsync_blocks dst (of_nat (length xs)) blockSize sender tag rreqs0 wr
        = Some (Inr (rreqs, wr')) \<and>
      sent_messages sender src xs (calls_since ws ws') = Some msgs \<and>
      deliver receiver dst msgs (calls_since wr wr') buf = Some xs"
proof -
  define s where "s = length xs"
  define b where "b = unat blockSize"
  from len have s64: "s < 2 ^ 64" by (simp add: s_def cap_def)
  then have us: "unat (of_nat s :: 64 word) = s" by (rule unat_of_nat64)
  from bpos have b0: "0 < b" by (simp add: b_def word_greater_zero_iff unat_gt_0)
  from small have b31: "b < 2 ^ 31" by (simp add: b_def)
  from len small have "s + unat blockSize \<le> 2 ^ 64"
    by (simp add: s_def cap_def)
  then have nowrap: "unat (of_nat s :: 64 word) + unat blockSize \<le> 2 ^ 64"
    by (simp only: us)
  note lay = blocks_layout [OF _ bpos nowrap, unfolded us, folded b_def]
  have plan: "spec_blocks s b = block_plan s b 0"
    by (rule block_plan_spec [OF b0, symmetric])
  obtain sreqs ws' where
    sw: "issue_all (map (isend_of_block src receiver tag) (spec_blocks s b)) (sreqs0, ws) = (sreqs, ws')"
    by (cases "issue_all (map (isend_of_block src receiver tag) (spec_blocks s b)) (sreqs0, ws)")
  obtain rreqs wr' where
    rw: "issue_all (map (irecv_of_block dst sender tag) (spec_blocks s b)) (rreqs0, wr) = (rreqs, wr')"
    by (cases "issue_all (map (irecv_of_block dst sender tag) (spec_blocks s b)) (rreqs0, wr)")
  have w: "WriteAsync_blocks src (of_nat s) blockSize receiver tag sreqs0 ws = Some (Inr (sreqs, ws'))"
    by (simp only: lay(1) [OF oks] sw)
  have r: "ReadAsync_blocks dst (of_nat s) blockSize sender tag rreqs0 wr = Some (Inr (rreqs, wr'))"
    by (simp only: lay(2) [OF okr] rw)
  have m: "sent_messages sender src xs (calls_since ws ws')
      = Some (map (block_message sender receiver tag xs) (block_plan s b 0))"
    by (simp only: calls_since_issue_all [OF sw] plan
        sent_messages_blocks [OF s_def [symmetric] b31 s64])
  have d: "deliver receiver dst (map (block_message sender receiver tag xs) (block_plan s b 0))
      (calls_since wr wr') buf = Some xs"
  proof -
    from buf have "length buf = s" by (simp only: s_def)
    from deliver_blocks [OF s_def [symmetric] b31 s64 b0 this, of receiver dst sender tag 0]
    show ?thesis
      by (simp only: calls_since_issue_all [OF rw] plan) simp
  qed
  from w r m d show ?thesis
    unfolding s_def by blast
qed

text \<open>
  C1. A payload \<open>xs\<close> of \<open>0 < s \<le> 4 cap\<close> bytes at the sender's address \<open>src\<close>, a
  buffer of \<open>s\<close> bytes at the receiver's address \<open>dst\<close>, no transport call failing:
  the chunked send with the default block size \<open>min(s, cap)\<close> and the matching chunked
  receive both return, the sends put the blocks of \<open>xs\<close> on the wire in issue order,
  and once the receives have completed the receiver's buffer holds exactly \<open>xs\<close>. The
  same holds for every explicit block size from 1 to \<open>2^31 - 1\<close> used on both sides,
  whether or not it divides \<open>s\<close>.
\<close>

theorem chunked_round_trip:
  "0 < length xs \<and> length xs \<le> 4 * cap \<and> length buf = length xs \<and> mpi_ok ws \<and> mpi_ok wr \<longrightarrow>
   (\<exists>sreqs ws' rreqs wr' msgs.
      WriteAsync_default src (of_nat (length xs)) receiver tag sreqs0 ws = Some (Inr (sreqs, ws')) \<and>
      ReadAsync_default dst (of_nat (length xs)) sender tag rreqs0 wr = Some (Inr (rreqs, wr')) \<and>
      sent_messages sender src xs (calls_since ws ws') = Some msgs \<and>
      deliver receiver dst msgs (calls_since wr wr') buf = Some xs) \<and>
   (0 < blockSize \<and> unat blockSize < 2 ^ 31 \<longrightarrow>
     (\<exists>sreqs ws' rreqs wr' msgs.
        WriteAsync_blocks src (of_nat (length xs)) blockSize receiver tag sreqs0 ws
          = Some (Inr (sreqs, ws')) \<and>
        ReadAsync_blocks dst (of_nat (length xs)) blockSize sender tag rreqs0 wr
          = Some (Inr (rreqs, wr')) \<and>
        sent_messages sender src xs (calls_since ws ws') = Some msgs \<and>
        deliver receiver dst msgs (calls_since wr wr') buf = Some xs))"
proof (intro impI, elim conjE)
  assume pos: "0 < length xs" and len: "length xs \<le> 4 * cap" and buf: "length buf = length xs"
    and oks: "mpi_ok ws" and okr: "mpi_ok wr"
  let ?d = "default_blockSize (of_nat (length xs))"
  from len have "length xs < 2 ^ 64" by (simp add: cap_def)
  then have us: "unat (of_nat (length xs) :: 64 word) = length xs" by (rule unat_of_nat64)
  have ud: "unat ?d = min (length xs) cap"
    by (simp only: unat_default_blockSize us)
  with pos have dpos: "0 < ?d" and dsmall: "unat ?d < 2 ^ 31"
    by (simp_all add: word_greater_zero_iff unat_gt_0 [symmetric] cap_def)
  from round_trip_blocks [OF dpos dsmall len buf oks okr, of src receiver tag sreqs0 dst sender rreqs0]
  have dflt: "\<exists>sreqs ws' rreqs wr' msgs.
      WriteAsync_default src (of_nat (length xs)) receiver tag sreqs0 ws = Some (Inr (sreqs, ws')) \<and>
      ReadAsync_default dst (of_nat (length xs)) sender tag rreqs0 wr = Some (Inr (rreqs, wr')) \<and>
      sent_messages sender src xs (calls_since ws ws') = Some msgs \<and>
      deliver receiver dst msgs (calls_since wr wr') buf = Some xs"
    by (simp only: WriteAsync_default_def ReadAsync_default_def)
  have gen: "0 < blockSize \<and> unat blockSize < 2 ^ 31 \<longrightarrow>
     (\<exists>sreqs ws' rreqs wr' msgs.
        WriteAsync_blocks src (of_nat (length xs)) blockSize receiver tag sreqs0 ws
          = Some (Inr (sreqs, ws')) \<and>
        ReadAsync_blocks dst (of_nat (length xs)) blockSize sender tag rreqs0 wr
          = Some (Inr (rreqs, wr')) \<and>
        sent_messages sender src xs (calls_since ws ws') = Some msgs \<and>
        deliver receiver dst msgs (calls_since wr wr') buf = Some xs)"
    using round_trip_blocks [OF _ _ len buf oks okr, of blockSize src receiver tag sreqs0 dst sender rreqs0]
    by blast
  from dflt gen show "(\<exists>sreqs ws' rreqs wr' msgs.
      WriteAsync_default src (of_nat (length xs)) receiver tag sreqs0 ws = Some (Inr (sreqs, ws')) \<and>
      ReadAsync_default dst (of_nat (length xs)) sender tag rreqs0 wr = Some (Inr (rreqs, wr')) \<and>
      sent_messages sender src xs (calls_since ws ws') = Some msgs \<and>
      deliver receiver dst msgs (calls_since wr wr') buf = Some xs) \<and>
   (0 < blockSize \<and> unat blockSize < 2 ^ 31 \<longrightarrow>
     (\<exists>sreqs ws' rreqs wr' msgs.
        WriteAsync_blocks src (of_nat (length xs)) blockSize receiver tag sreqs0 ws
          = Some (Inr (sreqs, ws')) \<and>
        ReadAsync_blocks dst (of_nat (length xs)) blockSize sender tag rreqs0 wr
          = Some (Inr (rreqs, wr')) \<and>
        sent_messages sender src xs (calls_since ws ws') = Some msgs \<and>
        deliver receiver dst msgs (calls_since wr wr') buf = Some xs))"
    by blast
qed

theorem chunked_round_trip_witness:
  "0 < length [1, 2, 3, 4, 5, 6, 7, 8, 9, 10 :: byte] \<and>
   length [1, 2, 3, 4, 5, 6, 7, 8, 9, 10 :: byte] \<le> 4 * cap \<and>
   length (replicate 10 (0 :: byte)) = length [1, 2, 3, 4, 5, 6, 7, 8, 9, 10 :: byte] \<and>
   mpi_ok example_world \<and> (0 :: ui64) < 4 \<and> unat (4 :: ui64) < 2 ^ 31 \<and>
   (\<exists>sreqs ws' rreqs wr' msgs.
      WriteAsync_default 100 (of_nat (length [1, 2, 3, 4, 5, 6, 7, 8, 9, 10 :: byte])) 1 1023 [] example_world
        = Some (Inr (sreqs, ws')) \<and>
      ReadAsync_default 200 (of_nat (length [1, 2, 3, 4, 5, 6, 7, 8, 9, 10 :: byte])) 0 1023 [] example_world
        = Some (Inr (rreqs, wr')) \<and>
      sent_messages 0 100 [1, 2, 3, 4, 5, 6, 7, 8, 9, 10] (calls_since example_world ws') = Some msgs \<and>
      deliver 1 200 msgs (calls_since example_world wr') (replicate 10 0)
        = Some [1, 2, 3, 4, 5, 6, 7, 8, 9, 10]) \<and>
   (\<exists>sreqs ws' rreqs wr' msgs.
      WriteAsync_blocks 100 (of_nat (length [1, 2, 3, 4, 5, 6, 7, 8, 9, 10 :: byte])) 4 1 1023 [] example_world
        = Some (Inr (sreqs, ws')) \<and>
      ReadAsync_blocks 200 (of_nat (length [1, 2, 3, 4, 5, 6, 7, 8, 9, 10 :: byte])) 4 0 1023 [] example_world
        = Some (Inr (rreqs, wr')) \<and>
      sent_messages 0 100 [1, 2, 3, 4, 5, 6, 7, 8, 9, 10] (calls_since example_world ws') = Some msgs \<and>
      deliver 1 200 msgs (calls_since example_world wr') (replicate 10 0)
        = Some [1, 2, 3, 4, 5, 6, 7, 8, 9, 10]) \<and>
   sent_messages 0 100 [1, 2, 3, 4, 5, 6, 7, 8, 9, 10 :: byte]
       [MPI_Isend 100 4 1 1023, MPI_Isend 104 4 1 1023, MPI_Isend 108 2 1 1023]
     = Some [\<lparr>m_src = 0, m_dst = 1, m_tag = 1023, m_payload = [1, 2, 3, 4]\<rparr>,
             \<lparr>m_src = 0, m_dst = 1, m_tag = 1023, m_payload = [5, 6, 7, 8]\<rparr>,
             \<lparr>m_src = 0, m_dst = 1, m_tag = 1023, m_payload = [9, 10]\<rparr>] \<and>
   deliver 1 200
       [\<lparr>m_src = 0, m_dst = 1, m_tag = 1023, m_payload = [1, 2, 3, 4]\<rparr>,
        \<lparr>m_src = 0, m_dst = 1, m_tag = 1023, m_payload = [5, 6, 7, 8]\<rparr>,
        \<lparr>m_src = 0, m_dst = 1, m_tag = 1023, m_payload = [9, 10]\<rparr>]
       [MPI_Irecv 200 4 0 1023, MPI_Irecv 204 4 0 1023, MPI_Irecv 208 2 0 1023]
       (replicate 10 0)
     = Some [1, 2, 3, 4, 5, 6, 7, 8, 9, 10]"
proof -
  have r: "replicate 10 (0 :: byte) = [0, 0, 0, 0, 0, 0, 0, 0, 0, 0]"
    by code_simp
  show ?thesis
    using chunked_round_trip [of "[1, 2, 3, 4, 5, 6, 7, 8, 9, 10]" "replicate 10 0" example_world example_world
        100 1 1023 "[]" 200 0 "[]" 4]
    by (simp add: cap_def mpi_ok_def example_world_def MPI_SUCCESS_def read_at_def write_at_def r)
qed

section \<open>Typed send and receive of fixed-layout values\<close>

lemma Send_pod:
  assumes "is_pod T" "mpi_ok w"
  shows "Send T value saved rank tag w =
         Inr (w\<lparr>calls := calls w @ [MPI_Send value (ucast (sizeof T)) rank tag]\<rparr>)"
  using assms
  by (simp add: Send_def SendPod_def check_defs Write_def MPI_SAFE_CALL_def mpi_def mpi_ok_def)

lemma Receive_pod:
  assumes "is_pod T" "mpi_ok w"
  shows "Receive T result fresh rank tag w =
         Inr (Raw result (sizeof T),
              w\<lparr>calls := calls w @ [MPI_Irecv result (ucast (sizeof T)) rank tag,
                                     MPI_Wait (out_request (replies w (length (calls w))))]\<rparr>)"
  using assms
  by (simp add: Receive_def ReceivePodAsync_def check_defs ReadAsync_def WaitComplete_def
      TMpiRequest_destroy_def TMpiRequest_of_def MPI_SAFE_CALL_def mpi_def mpi_ok_def)

text \<open>
  C5, as the code has it. \<open>T\<close> a fixed-layout type whose size is below \<open>2^31\<close> bytes
  (what the conversion of \<open>sizeof(T)\<close> to the \<open>int\<close> count of the transport keeps),
  \<open>v\<close> the \<open>sizeof(T)\<close> bytes of a value at the sender's address \<open>value\<close>, no transport
  call failing: \<open>Send\<close> issues one blocking send of exactly \<open>sizeof(T)\<close> bytes from
  \<open>value\<close>; \<open>Receive\<close> posts one receive of exactly \<open>sizeof(T)\<close> bytes into its local
  \<open>result\<close>, waits on it and returns that object; and once the receive has completed
  the bytes of \<open>result\<close> are \<open>v\<close>, whatever they were before.
\<close>

theorem pod_round_trip:
  "is_pod T \<and> unat (sizeof T) < 2 ^ 31 \<and> length v = unat (sizeof T) \<and>
   length junk = unat (sizeof T) \<and> mpi_ok ws \<and> mpi_ok wr \<longrightarrow>
     (\<exists>ws' wr' msgs.
        Send T value saved receiver tag ws = Inr ws' \<and>
        Receive T result fresh sender tag wr = Inr (Raw result (sizeof T), wr') \<and>
        calls_since ws ws' = [MPI_Send value (ucast (sizeof T)) receiver tag] \<and>
        calls_since wr wr' = [MPI_Irecv result (ucast (sizeof T)) sender tag,
                              MPI_Wait (out_request (replies wr (length (calls wr))))] \<and>
        sint (ucast (sizeof T) :: i32) = int (length v) \<and>
        sent_messages sender value v (calls_since ws ws') = Some msgs \<and>
        deliver receiver result msgs (calls_since wr wr') junk = Some v)"
proof (intro impI, elim conjE)
  assume pod: "is_pod T" and small: "unat (sizeof T) < 2 ^ 31"
    and v: "length v = unat (sizeof T)" and junk: "length junk = unat (sizeof T)"
    and oks: "mpi_ok ws" and okr: "mpi_ok wr"
  note sz = sint_ucast_small [OF small]
  let ?ws' = "ws\<lparr>calls := calls ws @ [MPI_Send value (ucast (sizeof T)) receiver tag]\<rparr>"
  let ?wr' = "wr\<lparr>calls := calls wr @ [MPI_Irecv result (ucast (sizeof T)) sender tag,
                                     MPI_Wait (out_request (replies wr (length (calls wr))))]\<rparr>"
  let ?m = "\<lparr>m_src = sender, m_dst = receiver, m_tag = tag, m_payload = v\<rparr>"
  have s: "Send T value saved receiver tag ws = Inr ?ws'"
    by (rule Send_pod [OF pod oks])
  have r: "Receive T result fresh sender tag wr = Inr (Raw result (sizeof T), ?wr')"
    by (rule Receive_pod [OF pod okr])
  have cs: "calls_since ws ?ws' = [MPI_Send value (ucast (sizeof T)) receiver tag]"
    by (simp add: calls_since_def)
  have cr: "calls_since wr ?wr' = [MPI_Irecv result (ucast (sizeof T)) sender tag,
                              MPI_Wait (out_request (replies wr (length (calls wr))))]"
    by (simp add: calls_since_def)
  have n: "sint (ucast (sizeof T) :: i32) = int (length v)"
    by (simp only: sz v)
  have m: "sent_messages sender value v (calls_since ws ?ws') = Some [?m]"
    by (simp add: cs read_at_def n)
  have d: "deliver receiver result [?m] (calls_since wr ?wr') junk = Some v"
    using v junk by (simp add: cr write_at_def n)
  from s r cs cr n m d
  show "\<exists>ws' wr' msgs.
        Send T value saved receiver tag ws = Inr ws' \<and>
        Receive T result fresh sender tag wr = Inr (Raw result (sizeof T), wr') \<and>
        calls_since ws ws' = [MPI_Send value (ucast (sizeof T)) receiver tag] \<and>
        calls_since wr wr' = [MPI_Irecv result (ucast (sizeof T)) sender tag,
                              MPI_Wait (out_request (replies wr (length (calls wr))))] \<and>
        sint (ucast (sizeof T) :: i32) = int (length v) \<and>
        sent_messages sender value v (calls_since ws ws') = Some msgs \<and>
        deliver receiver result msgs (calls_since wr wr') junk = Some v"
    by blast
qed

theorem pod_round_trip_witness:
  "is_pod \<lparr>is_pod = True, sizeof = 4\<rparr> \<and> unat (sizeof \<lparr>is_pod = True, sizeof = 4\<rparr>) < 2 ^ 31 \<and>
   length [239, 190, 173, 222 :: byte] = unat (sizeof \<lparr>is_pod = True, sizeof = 4\<rparr>) \<and>
   mpi_ok example_world \<and>
   (\<exists>ws' wr' msgs.
      Send \<lparr>is_pod = True, sizeof = 4\<rparr> 100 \<lparr>Data = 0, Size = 0\<rparr> 1 1023 example_world = Inr ws' \<and>
      Receive \<lparr>is_pod = True, sizeof = 4\<rparr> 200 0 0 1023 example_world = Inr (Raw 200 4, wr') \<and>
      calls_since example_world ws' = [MPI_Send 100 4 1 1023] \<and>
      calls_since example_world wr' = [MPI_Irecv 200 4 0 1023, MPI_Wait 0] \<and>
      sent_messages 0 100 [239, 190, 173, 222] (calls_since example_world ws') = Some msgs \<and>
      deliver 1 200 msgs (calls_since example_world wr') [0, 0, 0, 0] = Some [239, 190, 173, 222])"
  using pod_round_trip [of "\<lparr>is_pod = True, sizeof = 4\<rparr>" "[239, 190, 173, 222]" "[0, 0, 0, 0]"
      example_world example_world 100 "\<lparr>Data = 0, Size = 0\<rparr>" 1 1023 200 0 0]
  by (simp add: mpi_ok_def example_world_def MPI_SUCCESS_def)

text \<open>
  The claim C5 as stated fails for a fixed-layout type that the \<open>int\<close> count does not
  hold: at a type of \<open>2^32 + 4\<close> bytes \<open>Send\<close> issues a send of 4 bytes and \<open>Receive\<close>
  posts a receive of 4 bytes, so only the first 4 bytes of the value are transmitted.
\<close>

theorem pod_oversize_counterexample:
  "is_pod \<lparr>is_pod = True, sizeof = 4294967300\<rparr> \<and>
   unat (sizeof \<lparr>is_pod = True, sizeof = 4294967300\<rparr>) = 2 ^ 32 + 4 \<and>
   Send \<lparr>is_pod = True, sizeof = 4294967300\<rparr> 100 \<lparr>Data = 0, Size = 0\<rparr> 1 1023 example_world
     = Inr (example_world\<lparr>calls := [MPI_Send 100 4 1 1023]\<rparr>) \<and>
   Receive \<lparr>is_pod = True, sizeof = 4294967300\<rparr> 200 0 0 1023 example_world
     = Inr (Raw 200 4294967300, example_world\<lparr>calls := [MPI_Irecv 200 4 0 1023, MPI_Wait 0]\<rparr>) \<and>
   sent_messages 0 100 [1, 2, 3, 4, 5, 6] [MPI_Send 100 4 1 1023]
     = Some [\<lparr>m_src = 0, m_dst = 1, m_tag = 1023, m_payload = [1, 2, 3, 4]\<rparr>]"
  by (simp add: Send_def SendPod_def Receive_def ReceivePodAsync_def ReadAsync_def Write_def
      WaitComplete_def TMpiRequest_destroy_def TMpiRequest_of_def check_defs MPI_SAFE_CALL_def
      mpi_def MPI_SUCCESS_def example_world_def read_at_def)

end
